theory Spec2Isabelle
  imports Main
begin

section \<open>JavaScript strings\<close>

text \<open>
  Strings are lists of 8-bit characters. The helpers below are the \<^verbatim>\<open>String.prototype\<close>
  methods and the regular expressions that \<^verbatim>\<open>background.ts\<close>, \<^verbatim>\<open>ExportCard.tsx\<close> and the
  preview page use, each with the behaviour JavaScript gives it.
\<close>

text \<open>\<^verbatim>\<open>s.split(c)\<close> for a one-character separator: never empty, \<^verbatim>\<open>"".split(c)\<close> is \<^verbatim>\<open>[""]\<close>.\<close>

fun split :: "char \<Rightarrow> string \<Rightarrow> string list" where
  "split c [] = [[]]"
| "split c (x # xs) =
     (if x = c then [] # split c xs
      else (case split c xs of
              [] \<Rightarrow> [[x]]
            | p # ps \<Rightarrow> (x # p) # ps))"

text \<open>\<^verbatim>\<open>parts.join(c)\<close>.\<close>

fun join :: "char \<Rightarrow> string list \<Rightarrow> string" where
  "join c [] = []"
| "join c [p] = p"
| "join c (p # q # ps) = p @ c # join c (q # ps)"

text \<open>\<^verbatim>\<open>s.endsWith(suf)\<close>.\<close>

definition endsWith :: "string \<Rightarrow> string \<Rightarrow> bool" where
  "endsWith s suf \<longleftrightarrow>
     length suf \<le> length s \<and> drop (length s - length suf) s = suf"

text \<open>
  \<^verbatim>\<open>toUpperCase\<close> on one ASCII character; it is also the canonicalisation that the
  \<^verbatim>\<open>i\<close> flag of a regular expression applies to the ASCII letters of a pattern.
\<close>

definition toUpperCase :: "char \<Rightarrow> char" where
  "toUpperCase c =
     (case map_of (zip ''abcdefghijklmnopqrstuvwxyz'' ''ABCDEFGHIJKLMNOPQRSTUVWXYZ'') c of
        Some u \<Rightarrow> u
      | None \<Rightarrow> c)"

text \<open>The class \<^verbatim>\<open>\w\<close>: ASCII letters, digits and the underscore.\<close>

definition isWordChar :: "char \<Rightarrow> bool" where
  "isWordChar c \<longleftrightarrow>
     c \<in> set ''abcdefghijklmnopqrstuvwxyzABCDEFGHIJKLMNOPQRSTUVWXYZ0123456789_''"

text \<open>
  The class \<^verbatim>\<open>\s\<close>, which is also what \<^verbatim>\<open>trim\<close> removes: tab, line feed, vertical tab,
  form feed, carriage return, space and the no-break space.
\<close>

definition isSpace :: "char \<Rightarrow> bool" where
  "isSpace c \<longleftrightarrow>
     c \<in> set [CHR 0x09, CHR 0x0A, CHR 0x0B, CHR 0x0C, CHR 0x0D, CHR 0x20, CHR 0xA0]"

text \<open>\<^verbatim>\<open>s.trim()\<close>.\<close>

definition trim :: "string \<Rightarrow> string" where
  "trim s = rev (dropWhile isSpace (rev (dropWhile isSpace s)))"

text \<open>\<^verbatim>\<open>n.toString()\<close> for an integer \<^verbatim>\<open>n\<close>: its decimal digits, with a sign when negative.\<close>

function digitsOf :: "int \<Rightarrow> string" where
  "digitsOf n =
     (if n < 10 then [''0123456789'' ! nat n]
      else digitsOf (n div 10) @ [''0123456789'' ! nat (n mod 10)])"
  by pat_completeness auto
termination
  by (relation "measure nat") auto

declare digitsOf.simps [simp del]

definition toString :: "int \<Rightarrow> string" where
  "toString i = (if i < 0 then CHR ''-'' # digitsOf (- i) else digitsOf i)"

section \<open>Archive entries and the grouping pass\<close>

text \<open>
  The archive codec (JSZip) is outside the repository. What \<^verbatim>\<open>processZipData\<close> sees of it is
  a decode that fails or yields the entries in the order \<^verbatim>\<open>zip.forEach\<close> enumerates them, and
  for each entry its path (\<^verbatim>\<open>relativePath\<close>, which for the root archive is \<^verbatim>\<open>file.name\<close>), its
  directory flag, and the two decoders \<^verbatim>\<open>file.async("string")\<close> and \<^verbatim>\<open>file.async("base64")\<close>,
  each of which may reject.
\<close>

datatype JsError = JsError string

record ZipObject =
  name :: string
  dir :: bool
  asyncString :: "JsError + string"
  asyncBase64 :: "JsError + string"

text \<open>One value of \<^verbatim>\<open>folders\<close>: \<^verbatim>\<open>{ html?: any, image?: any }\<close>.\<close>

record FolderFiles =
  htmlFile :: "ZipObject option"
  imageFile :: "ZipObject option"

text \<open>
  \<^verbatim>\<open>folders: Record<string, {html?, image?}>\<close> is a plain object made by \<^verbatim>\<open>{}\<close>. It is
  kept as the list of its own properties in the order they were created.
\<close>

type_synonym Folders = "(string \<times> FolderFiles) list"

text \<open>
  A plain object inherits from \<^verbatim>\<open>Object.prototype\<close>, so \<^verbatim>\<open>folders[folderPath]\<close> and the reads
  of \<^verbatim>\<open>.html\<close> and \<^verbatim>\<open>.image\<close> on a value of \<^verbatim>\<open>folders\<close> also find what \<^verbatim>\<open>Object.prototype\<close>
  holds. It holds the names below from the start, each with a truthy value: functions, and
  under \<^verbatim>\<open>__proto__\<close> the prototype of the object read, which for \<^verbatim>\<open>folders\<close> is
  \<^verbatim>\<open>Object.prototype\<close> itself. The assignments of lines 323 and 327 can add \<^verbatim>\<open>html\<close> and
  \<^verbatim>\<open>image\<close> to it, and what they add stays for the life of the service worker.
\<close>

definition inheritedNames :: "string list" where
  "inheritedNames =
     [''constructor'', ''__defineGetter__'', ''__defineSetter__'', ''hasOwnProperty'',
      ''__lookupGetter__'', ''__lookupSetter__'', ''isPrototypeOf'', ''propertyIsEnumerable'',
      ''toString'', ''valueOf'', ''__proto__'', ''toLocaleString'']"

record ObjectPrototype =
  protoHtml :: "ZipObject option"
  protoImage :: "ZipObject option"

definition cleanPrototype :: ObjectPrototype where
  "cleanPrototype = \<lparr>protoHtml = None, protoImage = None\<rparr>"

text \<open>
  What \<^verbatim>\<open>folders[folderPath]\<close> evaluates to: \<^verbatim>\<open>undefined\<close>, a group that is an own property,
  \<^verbatim>\<open>Object.prototype\<close> (for \<^verbatim>\<open>__proto__\<close>), or another inherited object: one of the functions, or
  the entry that \<^verbatim>\<open>Object.prototype\<close> holds under \<^verbatim>\<open>html\<close> or \<^verbatim>\<open>image\<close>. All but the first are
  truthy.
\<close>

datatype FolderValue = Undefined | Group FolderFiles | ThePrototype | OtherObject

definition folderValue :: "Folders \<Rightarrow> ObjectPrototype \<Rightarrow> string \<Rightarrow> FolderValue" where
  "folderValue folders proto folderPath =
     (case map_of folders folderPath of
        Some g \<Rightarrow> Group g
      | None \<Rightarrow>
          if folderPath = ''__proto__'' then ThePrototype
          else if folderPath \<in> set inheritedNames then OtherObject
          else if folderPath = ''html'' \<and> protoHtml proto \<noteq> None then OtherObject
          else if folderPath = ''image'' \<and> protoImage proto \<noteq> None then OtherObject
          else Undefined)"

text \<open>
  What \<^verbatim>\<open>files.html\<close> and \<^verbatim>\<open>files.image\<close> read on a group: its own field, or else the one
  of \<^verbatim>\<open>Object.prototype\<close>.
\<close>

definition inherit :: "ObjectPrototype \<Rightarrow> FolderFiles \<Rightarrow> FolderFiles" where
  "inherit proto files =
     \<lparr>htmlFile = (case htmlFile files of None \<Rightarrow> protoHtml proto | Some f \<Rightarrow> Some f),
      imageFile = (case imageFile files of None \<Rightarrow> protoImage proto | Some f \<Rightarrow> Some f)\<rparr>"

definition fileNameOf :: "string \<Rightarrow> string" where
  "fileNameOf relativePath = last (split CHR ''/'' relativePath)"

definition folderPathOf :: "string \<Rightarrow> string" where
  "folderPathOf relativePath = join CHR ''/'' (butlast (split CHR ''/'' relativePath))"

text \<open>
  \<^verbatim>\<open>fileName === 'index.html' || fileName === 'code.html' || fileName?.endsWith('.html')\<close>
\<close>

definition isHtmlName :: "string \<Rightarrow> bool" where
  "isHtmlName fileName \<longleftrightarrow>
     fileName = ''index.html'' \<or> fileName = ''code.html'' \<or> endsWith fileName ''.html''"

text \<open>\<^verbatim>\<open>fileName?.match(/\.(png|jpg|jpeg|webp)$/i)\<close>\<close>

definition isImageName :: "string \<Rightarrow> bool" where
  "isImageName fileName \<longleftrightarrow>
     (let u = map toUpperCase fileName
      in endsWith u ''.PNG'' \<or> endsWith u ''.JPG'' \<or> endsWith u ''.JPEG'' \<or> endsWith u ''.WEBP'')"

definition setFolder :: "string \<Rightarrow> (FolderFiles \<Rightarrow> FolderFiles) \<Rightarrow> Folders \<Rightarrow> Folders" where
  "setFolder k f folders = map (\<lambda>(k', g). if k' = k then (k', f g) else (k', g)) folders"

text \<open>
  The callback of \<^verbatim>\<open>zip.forEach\<close>, applied to one entry, on \<^verbatim>\<open>folders\<close> and
  \<^verbatim>\<open>Object.prototype\<close>. An assignment to \<^verbatim>\<open>.html\<close> or \<^verbatim>\<open>.image\<close> of an own group changes the
  group, one on \<^verbatim>\<open>Object.prototype\<close> changes the prototype, and one on another inherited
  object lands on that object, which \<^verbatim>\<open>Object.entries(folders)\<close> does not list and no group
  inherits from.
\<close>

definition visit :: "Folders \<times> ObjectPrototype \<Rightarrow> ZipObject \<Rightarrow> Folders \<times> ObjectPrototype" where
  "visit s file =
     (case s of
        (folders, proto) \<Rightarrow>
          if dir file then (folders, proto)
          else
            let fileName = fileNameOf (name file);
                folderPath = folderPathOf (name file);
                folders1 = (if folderValue folders proto folderPath = Undefined
                            then folders @ [(folderPath, \<lparr>htmlFile = None, imageFile = None\<rparr>)]
                            else folders)
            in if isHtmlName fileName then
                 (case folderValue folders1 proto folderPath of
                    Group g \<Rightarrow>
                      (setFolder folderPath (\<lambda>g. g\<lparr>htmlFile := Some file\<rparr>) folders1, proto)
                  | ThePrototype \<Rightarrow> (folders1, proto\<lparr>protoHtml := Some file\<rparr>)
                  | _ \<Rightarrow> (folders1, proto))
               else if isImageName fileName then
                 (case folderValue folders1 proto folderPath of
                    Group g \<Rightarrow>
                      (if imageFile (inherit proto g) = None
                       then setFolder folderPath (\<lambda>g. g\<lparr>imageFile := Some file\<rparr>) folders1
                       else folders1,
                       proto)
                  | ThePrototype \<Rightarrow>
                      (folders1,
                       if protoImage proto = None then proto\<lparr>protoImage := Some file\<rparr> else proto)
                  | _ \<Rightarrow> (folders1, proto))
               else (folders1, proto))"

definition groupEntries :: "ObjectPrototype \<Rightarrow> ZipObject list \<Rightarrow> Folders \<times> ObjectPrototype" where
  "groupEntries proto files = foldl visit ([], proto) files"

section \<open>Emitting items\<close>

text \<open>
  \<^verbatim>\<open>Object.entries(folders)\<close> lists the own properties of a plain object: first the keys that
  are array indices (canonical decimal numerals below \<open>2\<^sup>3\<^sup>2 - 1\<close>) in ascending numeric order,
  then every other key in the order it was created.
\<close>

definition digitsValue :: "string \<Rightarrow> nat" where
  "digitsValue s = foldl (\<lambda>n c. 10 * n + (of_char c - 48)) 0 s"

definition isArrayIndex :: "string \<Rightarrow> bool" where
  "isArrayIndex s \<longleftrightarrow>
     s \<noteq> [] \<and> list_all (\<lambda>c. c \<in> set ''0123456789'') s
     \<and> (s = ''0'' \<or> take 1 s \<noteq> ''0'') \<and> digitsValue s < 4294967295"

definition objectEntries :: "(string \<times> 'a) list \<Rightarrow> (string \<times> 'a) list" where
  "objectEntries props =
     sort_key (\<lambda>(k, v). digitsValue k) (filter (\<lambda>(k, v). isArrayIndex k) props)
     @ filter (\<lambda>(k, v). \<not> isArrayIndex k) props"

record CapturedItem =
  itemId :: string
  timestamp :: int
  html :: string
  image :: "string option"
  sourceUrl :: string
  title :: string

text \<open>
  What a run reads from its environment: \<open>dateNow n\<close> is the value of the \<open>n\<close>-th call of
  \<^verbatim>\<open>Date.now()\<close> (counting from 0) and \<open>mathRandom n\<close> the characters that
  \<^verbatim>\<open>Math.random().toString(36).substr(2, 9)\<close> gives at the \<open>n\<close>-th call.
\<close>

record Runtime =
  dateNow :: "nat \<Rightarrow> int"
  mathRandom :: "nat \<Rightarrow> string"

text \<open>Lines 353 to 364 of \<^verbatim>\<open>background.ts\<close>: the title of a group, from its folder path.\<close>

text \<open>\<^verbatim>\<open>title.replace(/\b\w/g, l => l.toUpperCase())\<close>; \<open>prev\<close> says whether the character before is a word character.\<close>

fun upperWordStarts :: "bool \<Rightarrow> string \<Rightarrow> string" where
  "upperWordStarts prev [] = []"
| "upperWordStarts prev (c # cs) =
     (if isWordChar c \<and> \<not> prev then toUpperCase c else c) # upperWordStarts (isWordChar c) cs"

text \<open>\<^verbatim>\<open>title.replace(/^Stitch\s+/i, '')\<close>\<close>

definition stripStitch :: "string \<Rightarrow> string" where
  "stripStitch t =
     (if map toUpperCase (take 6 t) = ''STITCH'' \<and> takeWhile isSpace (drop 6 t) \<noteq> []
      then dropWhile isSpace (drop 6 t)
      else t)"

definition deriveTitle :: "string \<Rightarrow> string" where
  "deriveTitle folderPath =
     (let pathParts = split CHR ''/'' folderPath;
          title0 = last pathParts;
          title1 = (if title0 = ''_canvas_screen'' \<and> length pathParts > 1
                    then pathParts ! (length pathParts - 2) else title0);
          title2 = upperWordStarts False (map (\<lambda>c. if c = CHR ''_'' then CHR '' '' else c) title1)
      in stripStitch title2)"

text \<open>
  The wrapper document of line 350, around \<^verbatim>\<open>files.image.name\<close>, and the document that
  \<^verbatim>\<open>saveSingleImageDesign\<close> builds around its title and its data URL (line 279).
\<close>

definition wrapperHtml :: "string \<Rightarrow> string" where
  \<open>wrapperHtml imageName =
     ''<!DOCTYPE html><html><head><title>Design</title></head><body style="margin:0;display:flex;justify-content:center;align-items:center;"><img src="''
     @ imageName @ ''" style="max-width:100%;" /></body></html>''\<close>

definition singleImageHtml :: "string \<Rightarrow> string \<Rightarrow> string" where
  \<open>singleImageHtml title' base64Data =
     ''<!DOCTYPE html><html><head><title>'' @ title'
     @ ''</title></head><body style="margin:0;display:flex;justify-content:center;align-items:center;background:#f0f0f0;"><img src="''
     @ base64Data @ ''" style="max-width:100%;box-shadow:0 4px 6px rgba(0,0,0,0.1);" /></body></html>''\<close>

text \<open>\<^verbatim>\<open>if (files.html) htmlContent = await files.html.async("string")\<close>, from \<^verbatim>\<open>""\<close>.\<close>

definition readHtml :: "FolderFiles \<Rightarrow> JsError + string" where
  "readHtml files = (case htmlFile files of None \<Rightarrow> Inr [] | Some f \<Rightarrow> asyncString f)"

text \<open>
  \<^verbatim>\<open>if (files.image) { ...; imageBase64 = `data:image/${ext};base64,${imgData}` }\<close>, from
  \<^verbatim>\<open>null\<close>; \<^verbatim>\<open>ext\<close> is \<^verbatim>\<open>files.image.name.split('.').pop()\<close>.
\<close>

definition readImage :: "FolderFiles \<Rightarrow> JsError + string option" where
  "readImage files =
     (case imageFile files of
        None \<Rightarrow> Inr None
      | Some f \<Rightarrow>
          (case asyncBase64 f of
             Inl e \<Rightarrow> Inl e
           | Inr imgData \<Rightarrow>
               Inr (Some (''data:image/'' @ last (split CHR ''.'' (name f))
                          @ '';base64,'' @ imgData))))"

text \<open>Truthiness of a value that is a string or \<^verbatim>\<open>null\<close>.\<close>

definition truthyString :: "string option \<Rightarrow> bool" where
  "truthyString v \<longleftrightarrow> (case v of None \<Rightarrow> False | Some s \<Rightarrow> s \<noteq> [])"

text \<open>
  The body of the loop over \<^verbatim>\<open>Object.entries(folders)\<close> (lines 333 to 375), with
  \<^verbatim>\<open>Object.prototype\<close> as the grouping pass left it. The item pushed when \<open>n\<close> items have been
  pushed before it reads the clock at calls \<open>2n\<close> and \<open>2n + 1\<close> and the random source at call
  \<open>n\<close>. A decode that rejects ends the loop with the error.
\<close>

fun buildItems ::
  "Runtime \<Rightarrow> string \<Rightarrow> ObjectPrototype \<Rightarrow> Folders \<Rightarrow> CapturedItem list
     \<Rightarrow> JsError + CapturedItem list" where
  "buildItems rt src proto [] newItems = Inr newItems"
| "buildItems rt src proto ((folderPath, own) # rest) newItems =
     (let files = inherit proto own
      in if htmlFile files \<noteq> None \<or> imageFile files \<noteq> None then
           (case readHtml files of
              Inl e \<Rightarrow> Inl e
            | Inr htmlContent0 \<Rightarrow>
                (case readImage files of
                   Inl e \<Rightarrow> Inl e
                 | Inr imageBase64 \<Rightarrow>
                     let htmlContent =
                           (if htmlContent0 = [] \<and> truthyString imageBase64
                            then (case imageFile files of
                                    Some f \<Rightarrow> wrapperHtml (name f)
                                  | None \<Rightarrow> htmlContent0)
                            else htmlContent0);
                         n = length newItems
                     in buildItems rt src proto rest
                          (newItems @
                           [\<lparr>itemId = toString (dateNow rt (2 * n)) @ mathRandom rt n,
                             timestamp = dateNow rt (2 * n + 1),
                             html = htmlContent,
                             image = imageBase64,
                             sourceUrl = src,
                             title = deriveTitle folderPath\<rparr>])))
         else buildItems rt src proto rest newItems)"

text \<open>\<^verbatim>\<open>base64DataUrl.split(',')[1]\<close>, which is \<^verbatim>\<open>undefined\<close> when there is no comma.\<close>

definition dataPart :: "string \<Rightarrow> string option" where
  "dataPart base64DataUrl =
     (case split CHR '','' base64DataUrl of
        _ # d # _ \<Rightarrow> Some d
      | _ \<Rightarrow> None)"

text \<open>
  The archive codec: \<^verbatim>\<open>JSZip.loadAsync(base64Data, { base64: true })\<close> followed by the
  enumeration of \<^verbatim>\<open>zip.forEach\<close>. It is a parameter of everything below, and a function of
  the data alone.
\<close>

type_synonym Codec = "string option \<Rightarrow> JsError + ZipObject list"

text \<open>
  The \<^verbatim>\<open>try\<close> block of \<^verbatim>\<open>processZipData\<close> up to the complete \<^verbatim>\<open>newItems\<close>, from the
  \<^verbatim>\<open>Object.prototype\<close> it finds: the \<^verbatim>\<open>Object.prototype\<close> it leaves, and the items or the error.
\<close>

definition reconstruct ::
  "Codec \<Rightarrow> Runtime \<Rightarrow> ObjectPrototype \<Rightarrow> string \<Rightarrow> string
     \<Rightarrow> ObjectPrototype \<times> (JsError + CapturedItem list)" where
  "reconstruct loadAsync rt proto base64DataUrl src =
     (case loadAsync (dataPart base64DataUrl) of
        Inl e \<Rightarrow> (proto, Inl e)
      | Inr files \<Rightarrow>
          (case groupEntries proto files of
             (folders, proto') \<Rightarrow>
               (proto', buildItems rt src proto' (objectEntries folders) [])))"

section \<open>The state of the background coordinator\<close>

text \<open>
  \<^verbatim>\<open>chrome.storage.local\<close>: the key \<^verbatim>\<open>capturedItems\<close> is absent or holds the collection, the
  key \<^verbatim>\<open>previewData\<close> is absent or holds the item handed to the preview page.
\<close>

record Storage =
  capturedItems :: "CapturedItem list option"
  previewData :: "CapturedItem option"

text \<open>A tab as the browser reports it: \<^verbatim>\<open>tab.id\<close> and \<^verbatim>\<open>tab.windowId\<close>, either of which may be absent.\<close>

record Tab =
  tab_id :: "int option"
  tab_windowId :: "int option"

datatype QueryInfo = ActiveCurrentWindow | ActiveInWindow int

text \<open>What \<^verbatim>\<open>chrome.tabs.query\<close> answers at a given time.\<close>

type_synonym TabsQuery = "int \<Rightarrow> QueryInfo \<Rightarrow> Tab list"

datatype Message = SHOW_XSTITCH_NOTIFICATION nat | SIDE_PANEL_STATE bool

text \<open>The calls of the browser API that the coordinator makes, logged in order.\<close>

datatype ChromeCall =
    TabsSendMessage int Message
  | SidePanelOpen int
  | SidePanelSetOptions int bool "string option"
  | Fetch string

text \<open>The two callbacks that \<^verbatim>\<open>background.ts\<close> hands to \<^verbatim>\<open>setTimeout\<close> (lines 84 and 159).\<close>

datatype TimerCallback = FlushNotification | ReenablePanel int bool int

record NotificationBatch =
  count :: nat
  tabId :: "int option"

text \<open>
  The module variables of \<^verbatim>\<open>background.ts\<close>, the storage, \<^verbatim>\<open>Object.prototype\<close> of the
  service worker, the timers that are set and have neither fired nor been cleared (handle,
  due time, callback), the number of timers created so far, and what the coordinator has sent
  to the browser and to \<^verbatim>\<open>console.error\<close>.
\<close>

record Bg =
  storage :: Storage
  objectPrototype :: ObjectPrototype
  notificationBatch :: "NotificationBatch option"
  notificationTimeout :: "nat option"
  openSidePanels :: "int set"
  lastToggleTimes :: "int \<rightharpoonup> int"
  timers :: "(nat \<times> int \<times> TimerCallback) list"
  timersCreated :: nat
  calls :: "ChromeCall list"
  errors :: "JsError list"

definition initialBg :: Bg where
  "initialBg =
     \<lparr>storage = \<lparr>capturedItems = None, previewData = None\<rparr>,
      objectPrototype = cleanPrototype,
      notificationBatch = None, notificationTimeout = None,
      openSidePanels = {}, lastToggleTimes = Map.empty,
      timers = [], timersCreated = 0, calls = [], errors = []\<rparr>"

text \<open>Truthiness of a number that may be \<^verbatim>\<open>undefined\<close>.\<close>

definition truthyId :: "int option \<Rightarrow> bool" where
  "truthyId v \<longleftrightarrow> (case v of None \<Rightarrow> False | Some i \<Rightarrow> i \<noteq> 0)"

definition chromeCall :: "ChromeCall \<Rightarrow> Bg \<Rightarrow> Bg" where
  "chromeCall c st = st\<lparr>calls := calls st @ [c]\<rparr>"

text \<open>\<^verbatim>\<open>setTimeout\<close> returns a fresh positive handle; \<^verbatim>\<open>clearTimeout\<close> drops the timer of a handle.\<close>

definition setTimeout :: "TimerCallback \<Rightarrow> int \<Rightarrow> Bg \<Rightarrow> nat \<times> Bg" where
  "setTimeout cb due st =
     (Suc (timersCreated st),
      st\<lparr>timers := timers st @ [(Suc (timersCreated st), due, cb)],
         timersCreated := Suc (timersCreated st)\<rparr>)"

definition clearTimeout :: "nat \<Rightarrow> Bg \<Rightarrow> Bg" where
  "clearTimeout h st = st\<lparr>timers := filter (\<lambda>(i, due, cb). i \<noteq> h) (timers st)\<rparr>"

text \<open>\<^verbatim>\<open>broadcastSidePanelState\<close> (line 55).\<close>

definition broadcastSidePanelState :: "TabsQuery \<Rightarrow> int \<Rightarrow> int \<Rightarrow> bool \<Rightarrow> Bg \<Rightarrow> Bg" where
  "broadcastSidePanelState tq now windowId isOpen st =
     (case tq now (ActiveInWindow windowId) of
        [] \<Rightarrow> st
      | t # _ \<Rightarrow>
          (case tab_id t of
             None \<Rightarrow> st
           | Some i \<Rightarrow>
               if i \<noteq> 0 then chromeCall (TabsSendMessage i (SIDE_PANEL_STATE isOpen)) st
               else st))"

section \<open>Notification batching\<close>

text \<open>\<^verbatim>\<open>scheduleNotification\<close> (line 69), called at time \<open>now\<close>.\<close>

definition scheduleNotification :: "int \<Rightarrow> nat \<Rightarrow> int option \<Rightarrow> Bg \<Rightarrow> Bg" where
  "scheduleNotification now cnt tab st =
     (let st1 = (case notificationTimeout st of
                   None \<Rightarrow> st
                 | Some h \<Rightarrow> if h \<noteq> 0 then clearTimeout h st else st);
          batch = (case notificationBatch st1 of
                     Some b \<Rightarrow>
                       b\<lparr>count := count b + cnt,
                         tabId := (if truthyId tab then tab else tabId b)\<rparr>
                   | None \<Rightarrow> \<lparr>count = cnt, tabId = tab\<rparr>);
          st2 = st1\<lparr>notificationBatch := Some batch\<rparr>;
          (h, st3) = setTimeout FlushNotification (now + 1000) st2
      in st3\<lparr>notificationTimeout := Some h\<rparr>)"

text \<open>\<^verbatim>\<open>showNotification\<close> (line 90).\<close>

definition showNotification :: "nat \<Rightarrow> int \<Rightarrow> Bg \<Rightarrow> Bg" where
  "showNotification totalCount targetTabId st =
     chromeCall (TabsSendMessage targetTabId (SHOW_XSTITCH_NOTIFICATION totalCount)) st"

text \<open>
  The tab a flush is shown on: the batch's tab when it is truthy, otherwise the first tab that
  the query for the active tab of the current window returns, when that tab has a truthy id.
\<close>

definition firstTabId :: "Tab list \<Rightarrow> int option" where
  "firstTabId tabs =
     (case tabs of
        [] \<Rightarrow> None
      | t # _ \<Rightarrow> (if truthyId (tab_id t) then tab_id t else None))"

definition notificationTarget :: "TabsQuery \<Rightarrow> int \<Rightarrow> int option \<Rightarrow> int option" where
  "notificationTarget tq now batchTabId =
     (if truthyId batchTabId then batchTabId else firstTabId (tq now ActiveCurrentWindow))"

text \<open>The callback of line 84, run at time \<open>now\<close>.\<close>

definition flushNotification :: "TabsQuery \<Rightarrow> int \<Rightarrow> Bg \<Rightarrow> Bg" where
  "flushNotification tq now st =
     (case notificationBatch st of
        None \<Rightarrow> st
      | Some b \<Rightarrow>
          let st1 = st\<lparr>notificationBatch := None, notificationTimeout := None\<rparr>
          in (case notificationTarget tq now (tabId b) of
                Some targetTabId \<Rightarrow> showNotification (count b) targetTabId st1
              | None \<Rightarrow> st1))"

text \<open>The callback of line 159: re-enable the panel, and report it closed when it was stuck.\<close>

definition reenablePanel :: "TabsQuery \<Rightarrow> int \<Rightarrow> int \<Rightarrow> bool \<Rightarrow> int \<Rightarrow> Bg \<Rightarrow> Bg" where
  "reenablePanel tq now tab isStuck windowId st =
     (let st1 = chromeCall (SidePanelSetOptions tab True (Some ''index.html'')) st
      in if isStuck then broadcastSidePanelState tq now windowId False st1 else st1)"

definition runCallback :: "TabsQuery \<Rightarrow> Bg \<Rightarrow> nat \<times> int \<times> TimerCallback \<Rightarrow> Bg" where
  "runCallback tq st timer =
     (case timer of
        (h, due, FlushNotification) \<Rightarrow> flushNotification tq due st
      | (h, due, ReenablePanel tab isStuck windowId) \<Rightarrow> reenablePanel tq due tab isStuck windowId st)"

text \<open>
  Letting time pass up to \<open>t\<close> with no other event: every timer due by then fires, in the
  order of the due times (and of creation among equal ones). No callback sets or clears a timer.
\<close>

definition advance :: "TabsQuery \<Rightarrow> int \<Rightarrow> Bg \<Rightarrow> Bg" where
  "advance tq t st =
     foldl (runCallback tq)
       (st\<lparr>timers := filter (\<lambda>(h, due, cb). \<not> due \<le> t) (timers st)\<rparr>)
       (sort_key (\<lambda>(h, due, cb). due) (filter (\<lambda>(h, due, cb). due \<le> t) (timers st)))"

section \<open>Ingestion\<close>

text \<open>
  \<^verbatim>\<open>chrome.storage.local.get(['capturedItems'], ...)\<close> followed by the write of
  \<^verbatim>\<open>[...newItems, ...currentItems]\<close>, taken as one step: no other write comes between the
  read and the write.
\<close>

definition prependItems :: "CapturedItem list \<Rightarrow> Storage \<Rightarrow> Storage" where
  "prependItems newItems sto =
     sto\<lparr>capturedItems :=
           Some (newItems @ (case capturedItems sto of None \<Rightarrow> [] | Some currentItems \<Rightarrow> currentItems))\<rparr>"

text \<open>
  \<^verbatim>\<open>processZipData\<close> (line 300), called at time \<open>now\<close>; the \<^verbatim>\<open>catch\<close> logs the error. What
  the grouping pass did to \<^verbatim>\<open>Object.prototype\<close> stays, also when a later decode rejects.
\<close>

definition processZipData ::
  "Codec \<Rightarrow> Runtime \<Rightarrow> int \<Rightarrow> string \<Rightarrow> string \<Rightarrow> int option \<Rightarrow> Bg \<Rightarrow> Bg" where
  "processZipData loadAsync rt now base64DataUrl src tab st =
     (case reconstruct loadAsync rt (objectPrototype st) base64DataUrl src of
        (proto', result) \<Rightarrow>
          let st1 = st\<lparr>objectPrototype := proto'\<rparr>
          in (case result of
                Inl err \<Rightarrow> st1\<lparr>errors := errors st1 @ [err]\<rparr>
              | Inr newItems \<Rightarrow>
                  if length newItems > 0 then
                    scheduleNotification now (length newItems) tab
                      (st1\<lparr>storage := prependItems newItems (storage st1)\<rparr>)
                  else st1))"

text \<open>\<^verbatim>\<open>saveSingleImageDesign\<close> (line 274).\<close>

definition singleImageTitle :: "string \<Rightarrow> string" where
  "singleImageTitle filename =
     (let t = (case split CHR ''.'' (last (split CHR ''/'' filename)) of
                 [] \<Rightarrow> []
               | x # _ \<Rightarrow> x)
      in if t = [] then ''Captured Image'' else t)"

definition saveSingleImageDesign :: "Runtime \<Rightarrow> string \<Rightarrow> string \<Rightarrow> string \<Rightarrow> Bg \<Rightarrow> Bg" where
  "saveSingleImageDesign rt base64Data src filename st =
     (let title' = singleImageTitle filename;
          newItem = \<lparr>itemId = toString (dateNow rt 0) @ mathRandom rt 0,
                     timestamp = dateNow rt 1,
                     html = singleImageHtml title' base64Data,
                     image = Some base64Data,
                     sourceUrl = src,
                     title = title'\<rparr>
      in st\<lparr>storage := prependItems [newItem] (storage st)\<rparr>)"

section \<open>The listeners of the background coordinator\<close>

record Payload =
  payloadHtml :: string
  payloadImage :: "string option"
  payloadSourceUrl :: string
  payloadTitle :: string

text \<open>
  A runtime message by its \<^verbatim>\<open>type\<close>: \<^verbatim>\<open>BLOB_DATA_CAPTURED\<close> carries \<^verbatim>\<open>data\<close> and \<^verbatim>\<open>url\<close>,
  \<^verbatim>\<open>FETCH_IMAGE_BASE64\<close> a \<^verbatim>\<open>url\<close>, \<^verbatim>\<open>STITCH_EXPORT_FULL\<close> a \<^verbatim>\<open>payload\<close>.
\<close>

datatype Request =
    BLOB_DATA_CAPTURED string string
  | OPEN_SIDE_PANEL
  | TOGGLE_SIDE_PANEL
  | FETCH_IMAGE_BASE64 string
  | STITCH_EXPORT_FULL Payload
  | OtherRequest string

record Sender =
  senderTab :: "Tab option"

definition senderTabId :: "Sender \<Rightarrow> int option" where
  "senderTabId sender = (case senderTab sender of None \<Rightarrow> None | Some t \<Rightarrow> tab_id t)"

definition senderWindowId :: "Sender \<Rightarrow> int option" where
  "senderWindowId sender = (case senderTab sender of None \<Rightarrow> None | Some t \<Rightarrow> tab_windowId t)"

text \<open>
  The \<^verbatim>\<open>TOGGLE_SIDE_PANEL\<close> branch (lines 140 to 175) once \<^verbatim>\<open>windowId && tabId\<close> holds. The
  callback of \<^verbatim>\<open>setOptions\<close> is taken to run at once, so the timer of 10 ms is due at
  \<open>now + 10\<close>.
\<close>

definition toggleSidePanel :: "int \<Rightarrow> int \<Rightarrow> int \<Rightarrow> Bg \<Rightarrow> Bg" where
  "toggleSidePanel now windowId tab st =
     (let lastToggle = (case lastToggleTimes st tab of
                          None \<Rightarrow> 0
                        | Some t \<Rightarrow> if t \<noteq> 0 then t else 0);
          st1 = st\<lparr>lastToggleTimes := (lastToggleTimes st)(tab \<mapsto> now)\<rparr>;
          isStuck = (windowId \<notin> openSidePanels st1 \<and> now - lastToggle < 1000)
      in if windowId \<in> openSidePanels st1 \<or> isStuck then
           snd (setTimeout (ReenablePanel tab isStuck windowId) (now + 10)
                  (chromeCall (SidePanelSetOptions tab False None) st1))
         else
           chromeCall (SidePanelOpen windowId)
             (chromeCall (SidePanelSetOptions tab True (Some ''index.html'')) st1))"

text \<open>
  The listener of \<^verbatim>\<open>chrome.runtime.onMessage\<close> (line 123), called at time \<open>now\<close>. The answer
  to \<^verbatim>\<open>FETCH_IMAGE_BASE64\<close> goes to the sender and leaves the state as it is.
\<close>

definition onMessage ::
  "Codec \<Rightarrow> Runtime \<Rightarrow> int \<Rightarrow> Request \<Rightarrow> Sender \<Rightarrow> Bg \<Rightarrow> Bg" where
  "onMessage loadAsync rt now request sender st =
     (case request of
        BLOB_DATA_CAPTURED data' url \<Rightarrow>
          processZipData loadAsync rt now data' url (senderTabId sender) st
      | OPEN_SIDE_PANEL \<Rightarrow>
          (case senderWindowId sender of
             None \<Rightarrow> st
           | Some w \<Rightarrow> if w \<noteq> 0 then chromeCall (SidePanelOpen w) st else st)
      | TOGGLE_SIDE_PANEL \<Rightarrow>
          (case (senderWindowId sender, senderTabId sender) of
             (Some w, Some t) \<Rightarrow> if w \<noteq> 0 \<and> t \<noteq> 0 then toggleSidePanel now w t st else st
           | _ \<Rightarrow> st)
      | FETCH_IMAGE_BASE64 url \<Rightarrow> chromeCall (Fetch url) st
      | STITCH_EXPORT_FULL payload \<Rightarrow> st
      | OtherRequest ty \<Rightarrow> st)"

text \<open>
  The listeners of a port named \<^verbatim>\<open>sidepanel\<close> (line 30): an \<^verbatim>\<open>INIT\<close> message with its
  \<^verbatim>\<open>windowId\<close>, and the disconnect of a port whose \<^verbatim>\<open>winId\<close> holds the given value.
\<close>

definition portInit :: "TabsQuery \<Rightarrow> int \<Rightarrow> int option \<Rightarrow> Bg \<Rightarrow> Bg" where
  "portInit tq now winId st =
     (case winId of
        None \<Rightarrow> st
      | Some w \<Rightarrow>
          if w \<noteq> 0 then
            broadcastSidePanelState tq now w True (st\<lparr>openSidePanels := insert w (openSidePanels st)\<rparr>)
          else st)"

definition portDisconnect :: "TabsQuery \<Rightarrow> int \<Rightarrow> int option \<Rightarrow> Bg \<Rightarrow> Bg" where
  "portDisconnect tq now winId st =
     (case winId of
        None \<Rightarrow> st
      | Some w \<Rightarrow>
          if w \<noteq> 0 then
            broadcastSidePanelState tq now w False (st\<lparr>openSidePanels := openSidePanels st - {w}\<rparr>)
          else st)"

text \<open>
  What can happen to the coordinator, each at a time: a port event, a runtime message (with
  the clock and random values its handler will read), the end of the read of a downloaded
  archive or image (lines 235 and 259), or a listener that only calls the browser
  (context menu, download cancellation, per-tab visibility). Timers due by the time of an
  event fire before it.
\<close>

datatype Event =
    PortInit "int option"
  | PortDisconnect "int option"
  | RuntimeMessage Runtime Request Sender
  | ZipDownloaded Runtime string string
  | ImageDownloaded Runtime string string string
  | BrowserOnly "ChromeCall list"

definition handleEvent :: "Codec \<Rightarrow> TabsQuery \<Rightarrow> int \<Rightarrow> Event \<Rightarrow> Bg \<Rightarrow> Bg" where
  "handleEvent loadAsync tq now ev st =
     (case ev of
        PortInit winId \<Rightarrow> portInit tq now winId st
      | PortDisconnect winId \<Rightarrow> portDisconnect tq now winId st
      | RuntimeMessage rt request sender \<Rightarrow> onMessage loadAsync rt now request sender st
      | ZipDownloaded rt base64data url \<Rightarrow> processZipData loadAsync rt now base64data url None st
      | ImageDownloaded rt base64data url filename \<Rightarrow>
          saveSingleImageDesign rt base64data url filename st
      | BrowserOnly cs \<Rightarrow> st\<lparr>calls := calls st @ cs\<rparr>)"

definition step :: "Codec \<Rightarrow> TabsQuery \<Rightarrow> Bg \<Rightarrow> int \<times> Event \<Rightarrow> Bg" where
  "step loadAsync tq st tev = handleEvent loadAsync tq (fst tev) (snd tev) (advance tq (fst tev) st)"

definition run :: "Codec \<Rightarrow> TabsQuery \<Rightarrow> (int \<times> Event) list \<Rightarrow> Bg \<Rightarrow> Bg" where
  "run loadAsync tq tevs st = foldl (step loadAsync tq) st tevs"

section \<open>The export trigger of the content script\<close>

text \<open>
  \<^verbatim>\<open>handleExportTrigger\<close> (content script, line 176) by the messages it sends to the
  coordinator. What it reads from the page is given: the text of the selection (if there is a
  selection object), the page address, the time since the last mouse move, what
  \<^verbatim>\<open>tryGetCodeFromEditor\<close> returns, and, when a design node is found, either the cleaned markup
  with the image address or the failure of that capture.
\<close>

definition handleExportTrigger ::
  "string option \<Rightarrow> string \<Rightarrow> int \<Rightarrow> string option \<Rightarrow> (JsError + string \<times> string option) option
   \<Rightarrow> Request list" where
  "handleExportTrigger selection href sinceMouseMove codeContent targetNode =
     (case (case selection of None \<Rightarrow> None | Some sel \<Rightarrow> if length sel > 50 then Some sel else None) of
        Some sel \<Rightarrow>
          [STITCH_EXPORT_FULL \<lparr>payloadHtml = sel, payloadImage = None,
                               payloadSourceUrl = href, payloadTitle = ''Selected Code''\<rparr>]
      | None \<Rightarrow>
          if sinceMouseMove > 2000 then []
          else if truthyString codeContent then
            (case codeContent of
               Some code \<Rightarrow>
                 [STITCH_EXPORT_FULL \<lparr>payloadHtml = code, payloadImage = None,
                                      payloadSourceUrl = href, payloadTitle = ''Source Code''\<rparr>]
             | None \<Rightarrow> [])
          else
            (case targetNode of
               None \<Rightarrow> []
             | Some (Inl err) \<Rightarrow> []
             | Some (Inr (cleanWrapper, imageUrl)) \<Rightarrow>
                 [STITCH_EXPORT_FULL \<lparr>payloadHtml = cleanWrapper, payloadImage = imageUrl,
                                      payloadSourceUrl = href, payloadTitle = ''Visual Capture''\<rparr>]))"

section \<open>Renaming an item\<close>

text \<open>\<^verbatim>\<open>input.replace(/[<>:"/\\|?*]/g, '').trim()\<close>, in both save-title handlers.\<close>

definition invalidFilenameChars :: "char list" where
  \<open>invalidFilenameChars = ''<>:"/'' @ [CHR 0x5C] @ ''|?*''\<close>

definition sanitizeTitle :: "string \<Rightarrow> string" where
  "sanitizeTitle input = trim (filter (\<lambda>c. c \<notin> set invalidFilenameChars) input)"

definition retitle :: "string \<Rightarrow> string \<Rightarrow> CapturedItem list \<Rightarrow> CapturedItem list" where
  "retitle ident newTitle items =
     map (\<lambda>item. if itemId item = ident then item\<lparr>title := newTitle\<rparr> else item) items"

text \<open>
  \<^verbatim>\<open>handleSaveTitle\<close> of the preview page, on its state \<^verbatim>\<open>data\<close> and \<^verbatim>\<open>titleInput\<close>: the new
  \<^verbatim>\<open>data\<close> and the storage after the write.
\<close>

definition previewSaveTitle ::
  "CapturedItem option \<Rightarrow> string \<Rightarrow> Storage \<Rightarrow> CapturedItem option \<times> Storage" where
  "previewSaveTitle data' titleInput sto =
     (case data' of
        None \<Rightarrow> (None, sto)
      | Some d \<Rightarrow>
          let sanitized = sanitizeTitle titleInput;
              finalTitle = (if sanitized \<noteq> [] then sanitized else ''Untitled Design'');
              newData = d\<lparr>title := finalTitle\<rparr>;
              items = (case capturedItems sto of None \<Rightarrow> [] | Some xs \<Rightarrow> xs)
          in (Some newData,
              sto\<lparr>capturedItems := Some (retitle (itemId d) finalTitle items),
                  previewData := Some newData\<rparr>))"

text \<open>
  \<^verbatim>\<open>handleRename\<close> of the side panel, on its list \<^verbatim>\<open>items\<close>, and \<^verbatim>\<open>handleSaveTitle\<close> of a
  card, which calls it through \<^verbatim>\<open>onRename\<close>.
\<close>

definition handleRename :: "string \<Rightarrow> string \<Rightarrow> CapturedItem list \<Rightarrow> Storage \<Rightarrow> Storage" where
  "handleRename ident newTitle items sto = sto\<lparr>capturedItems := Some (retitle ident newTitle items)\<rparr>"

definition cardSaveTitle :: "CapturedItem \<Rightarrow> string \<Rightarrow> CapturedItem list \<Rightarrow> Storage \<Rightarrow> Storage" where
  "cardSaveTitle item newTitle items sto =
     (let sanitized = sanitizeTitle newTitle
      in if sanitized \<noteq> [] then handleRename (itemId item) sanitized items sto else sto)"

section \<open>Notions used to state the properties\<close>

text \<open>
  The entries of the group \<open>k\<close>: the entries that are no directories and whose folder path
  is \<open>k\<close>. Among them, the last one enumerated with an HTML name, the first one enumerated with
  an HTML name, and the first one enumerated with an image name.
\<close>

definition inGroup :: "string \<Rightarrow> ZipObject \<Rightarrow> bool" where
  "inGroup k f \<longleftrightarrow> \<not> dir f \<and> folderPathOf (name f) = k"

definition lastHtmlOf :: "string \<Rightarrow> ZipObject list \<Rightarrow> ZipObject option" where
  "lastHtmlOf k files = List.find (\<lambda>f. inGroup k f \<and> isHtmlName (fileNameOf (name f))) (rev files)"

definition firstHtmlOf :: "string \<Rightarrow> ZipObject list \<Rightarrow> ZipObject option" where
  "firstHtmlOf k files = List.find (\<lambda>f. inGroup k f \<and> isHtmlName (fileNameOf (name f))) files"

definition firstImageOf :: "string \<Rightarrow> ZipObject list \<Rightarrow> ZipObject option" where
  "firstImageOf k files = List.find (\<lambda>f. inGroup k f \<and> isImageName (fileNameOf (name f))) files"

text \<open>
  An archive none of whose files lies in a folder whose path is a name that every object
  inherits.
\<close>

definition plainFolders :: "ZipObject list \<Rightarrow> bool" where
  "plainFolders files \<longleftrightarrow>
     list_all (\<lambda>f. dir f \<or> folderPathOf (name f) \<notin> set inheritedNames) files"

text \<open>
  The own properties of \<^verbatim>\<open>folders\<close> after the grouping pass over the entries \<open>files\<close>, when no
  inherited property comes into play.
\<close>

definition grouped :: "ZipObject list \<Rightarrow> Folders \<Rightarrow> bool" where
  "grouped files folders \<longleftrightarrow>
     distinct (map fst folders) \<and>
     (\<forall>k. map_of folders k =
            (if \<exists>f\<in>set files. inGroup k f
             then Some \<lparr>htmlFile = lastHtmlOf k files, imageFile = firstImageOf k files\<rparr>
             else None))"

text \<open>A group that has an HTML source or an image: the test of line 334.\<close>

definition hasFile :: "string \<times> FolderFiles \<Rightarrow> bool" where
  "hasFile kg \<longleftrightarrow> htmlFile (snd kg) \<noteq> None \<or> imageFile (snd kg) \<noteq> None"

text \<open>An item, and a result of the reconstruction, with the id and the timestamp blanked.\<close>

definition eraseIdTime :: "CapturedItem \<Rightarrow> CapturedItem" where
  "eraseIdTime item = item\<lparr>itemId := [], timestamp := 0\<rparr>"

definition eraseIdsTimes :: "JsError + CapturedItem list \<Rightarrow> JsError + CapturedItem list" where
  "eraseIdsTimes r = (case r of Inl e \<Rightarrow> Inl e | Inr items \<Rightarrow> Inr (map eraseIdTime items))"

text \<open>The stored collection, empty when the key is absent.\<close>

definition storedItems :: "Storage \<Rightarrow> CapturedItem list" where
  "storedItems sto = (case capturedItems sto of None \<Rightarrow> [] | Some items \<Rightarrow> items)"

text \<open>
  An event that is a \<^verbatim>\<open>TOGGLE_SIDE_PANEL\<close> request from the tab \<open>t\<close>, and the sender of a
  content script that runs in the tab \<open>t\<close> of the window \<open>windowId\<close>.
\<close>

definition isToggleFrom :: "int \<Rightarrow> Event \<Rightarrow> bool" where
  "isToggleFrom t ev \<longleftrightarrow>
     (case ev of
        RuntimeMessage rt TOGGLE_SIDE_PANEL sender \<Rightarrow> senderTabId sender = Some t
      | _ \<Rightarrow> False)"

definition tabSender :: "int \<Rightarrow> int \<Rightarrow> Sender" where
  "tabSender windowId t = \<lparr>senderTab = Some \<lparr>tab_id = Some t, tab_windowId = Some windowId\<rparr>\<rparr>"

text \<open>The notifications sent so far: the \<^verbatim>\<open>SHOW_XSTITCH_NOTIFICATION\<close> messages among the calls.\<close>

definition isShow :: "ChromeCall \<Rightarrow> bool" where
  "isShow c \<longleftrightarrow>
     (case c of
        TabsSendMessage i (SHOW_XSTITCH_NOTIFICATION n) \<Rightarrow> True
      | _ \<Rightarrow> False)"

definition notifications :: "Bg \<Rightarrow> ChromeCall list" where
  "notifications st = filter isShow (calls st)"

text \<open>
  A timer of the flush callback; what a flush of the batch \<open>b\<close> at time \<open>now\<close> sends; a
  coordinator with no batch and no flush timer; and one with the batch \<open>b\<close> whose only flush
  timer is the one held by \<^verbatim>\<open>notificationTimeout\<close>, due at \<open>d\<close>.
\<close>

definition isFlush :: "nat \<times> int \<times> TimerCallback \<Rightarrow> bool" where
  "isFlush timer \<longleftrightarrow> snd (snd timer) = FlushNotification"

definition deliver :: "TabsQuery \<Rightarrow> int \<Rightarrow> NotificationBatch \<Rightarrow> ChromeCall list" where
  "deliver tq now b =
     (case notificationTarget tq now (tabId b) of
        Some target \<Rightarrow> [TabsSendMessage target (SHOW_XSTITCH_NOTIFICATION (count b))]
      | None \<Rightarrow> [])"

definition idle :: "Bg \<Rightarrow> bool" where
  "idle st \<longleftrightarrow> notificationBatch st = None \<and> (\<forall>timer\<in>set (timers st). \<not> isFlush timer)"

definition pending :: "Bg \<Rightarrow> NotificationBatch \<Rightarrow> int \<Rightarrow> bool" where
  "pending st b d \<longleftrightarrow>
     notificationBatch st = Some b \<and>
     (\<exists>h. notificationTimeout st = Some h \<and> h \<noteq> 0 \<and> (h, d, FlushNotification) \<in> set (timers st)
          \<and> (\<forall>timer\<in>set (timers st). isFlush timer \<longrightarrow> timer = (h, d, FlushNotification)))"

text \<open>
  The tab a batch of three events remembers: the last truthy one, or that of the first event.
  Three calls of \<^verbatim>\<open>scheduleNotification\<close>, each at its time with its count and tab, with
  the timers due before each call fired.
\<close>

definition latestTab :: "int option \<Rightarrow> int option \<Rightarrow> int option \<Rightarrow> int option" where
  "latestTab tab1 tab2 tab3 =
     (if truthyId tab3 then tab3 else if truthyId tab2 then tab2 else tab1)"

definition threeEvents ::
  "TabsQuery \<Rightarrow> int \<times> nat \<times> int option \<Rightarrow> int \<times> nat \<times> int option
     \<Rightarrow> int \<times> nat \<times> int option \<Rightarrow> Bg \<Rightarrow> Bg" where
  "threeEvents tq e1 e2 e3 st =
     (case (e1, e2, e3) of
        ((t1, c1, tab1), (t2, c2, tab2), (t3, c3, tab3)) \<Rightarrow>
          scheduleNotification t3 c3 tab3
            (advance tq t3
               (scheduleNotification t2 c2 tab2
                  (advance tq t2
                     (scheduleNotification t1 c1 tab1 (advance tq t1 st))))))"

subsection \<open>Example inputs\<close>

text \<open>An entry that is a file and decodes to the given text and base64 characters.\<close>

definition entry :: "string \<Rightarrow> string \<Rightarrow> string \<Rightarrow> ZipObject" where
  "entry path text' b64 =
     \<lparr>name = path, dir = False, asyncString = Inr text', asyncBase64 = Inr b64\<rparr>"

definition indexHtml :: ZipObject where
  "indexHtml = entry ''A/index.html'' ''<p>first</p>'' ''PHA+Zmlyc3Q8L3A+''"

text \<open>Three screens, in folders named as in the title examples.\<close>

definition titleArchive :: "ZipObject list" where
  "titleArchive =
     [entry ''Home_Page/_canvas_screen/code.html'' ''<p>home</p>'' ''PHA+aG9tZTwvcD4='',
      entry ''My_Button/index.html'' ''<button/>'' ''PGJ1dHRvbi8+'',
      entry ''Stitch_Landing/index.html'' ''<p>landing</p>'' ''PHA+bGFuZGluZzwvcD4='']"

definition otherHtml :: ZipObject where
  "otherHtml = entry ''A/other.html'' ''<p>second</p>'' ''PHA+c2Vjb25kPC9wPg==''"

text \<open>
  A codec that decodes any data to the given entries, and one that rejects every input; two
  runs that differ in their clock and random values; further entries, an address of archive
  data and a page address.
\<close>

definition archiveOf :: "ZipObject list \<Rightarrow> Codec" where
  "archiveOf files = (\<lambda>d. Inr files)"

definition notAnArchive :: Codec where
  "notAnArchive = (\<lambda>d. Inl (JsError ''Can't find end of central directory : is this a zip file ?''))"

definition runA :: Runtime where
  "runA = \<lparr>dateNow = (\<lambda>n. 1700000000000 + int n), mathRandom = (\<lambda>n. ''k3j9x0q2a'')\<rparr>"

definition runB :: Runtime where
  "runB = \<lparr>dateNow = (\<lambda>n. 1700000005000 + int n), mathRandom = (\<lambda>n. ''p07zt41mc'')\<rparr>"

text \<open>
  An HTML file in a folder named \<^verbatim>\<open>__proto__\<close>, a second address of archive data, and a codec
  that decodes the first address to that file alone and the second to a text file alone.
\<close>

definition protoIndex :: ZipObject where
  "protoIndex = entry ''__proto__/index.html'' ''<p>proto</p>'' ''PHA+cHJvdG88L3A+''"

definition zipUrl2 :: string where
  "zipUrl2 = ''data:application/zip;base64,UEsDBAoAAAAAAA==''"

definition readme :: ZipObject where
  "readme = entry ''docs/README.txt'' ''hello'' ''aGVsbG8=''"

definition twoArchives :: Codec where
  "twoArchives =
     (\<lambda>d. if d = Some ''UEsDBBQAAAAIAA=='' then Inr [protoIndex]
          else if d = Some ''UEsDBAoAAAAAAA=='' then Inr [readme]
          else Inl (JsError ''Can't find end of central directory : is this a zip file ?''))"

definition emptyHtml :: ZipObject where
  "emptyHtml = entry ''A/index.html'' [] []"

definition zipUrl :: string where
  "zipUrl = ''data:application/zip;base64,UEsDBBQAAAAIAA==''"

definition stitchUrl :: string where
  "stitchUrl = ''https://stitch.withgoogle.com/''"

definition previewPng :: "string \<Rightarrow> ZipObject" where
  "previewPng b64 = entry ''Screen/preview.png'' [] b64"

text \<open>A stored item, and a storage that holds it as the collection and as the preview hand-off.\<close>

definition landing :: CapturedItem where
  "landing = \<lparr>itemId = ''1700000000000k3j9x0q2a'', timestamp = 1700000000001,
              html = ''<h1>Landing</h1>'', image = None, sourceUrl = stitchUrl, title = ''Landing''\<rparr>"

definition landingStored :: Storage where
  "landingStored = \<lparr>capturedItems = Some [landing], previewData = Some landing\<rparr>"

text \<open>A browser that reports no tab to any query, and a toggle request from tab 42 of window 7.\<close>

definition noTabs :: TabsQuery where
  "noTabs = (\<lambda>now q. [])"

text \<open>A browser that answers every query with the tab 42 of window 7.\<close>

definition activeTab42 :: TabsQuery where
  "activeTab42 = (\<lambda>now q. [\<lparr>tab_id = Some 42, tab_windowId = Some 7\<rparr>])"

definition toggle42 :: Event where
  "toggle42 = RuntimeMessage runA TOGGLE_SIDE_PANEL (tabSender 7 42)"

section \<open>The grouping pass\<close>

lemma endsWith_last: "endsWith s suf \<Longrightarrow> suf \<noteq> [] \<Longrightarrow> last s = last suf"
  unfolding endsWith_def
  by (metis append_take_drop_id last_appendR)

lemma toUpperCase_l: "toUpperCase c \<in> {CHR ''G'', CHR ''P''} \<Longrightarrow> c \<noteq> CHR ''l''"
  by (auto simp: toUpperCase_def)

lemma html_not_image: "isHtmlName n \<Longrightarrow> \<not> isImageName n"
proof
  assume h: "isHtmlName n" and i: "isImageName n"
  from h have e: "endsWith n ''.html''"
    by (auto simp: isHtmlName_def endsWith_def)
  then have l: "last n = CHR ''l''" and ne: "n \<noteq> []"
    using endsWith_last [of n "''.html''"] by (auto simp: endsWith_def)
  from i have "last (map toUpperCase n) \<in> {CHR ''G'', CHR ''P''}"
    unfolding isImageName_def Let_def
    using endsWith_last [of "map toUpperCase n"] by fastforce
  then have "toUpperCase (last n) \<in> {CHR ''G'', CHR ''P''}"
    using ne by (simp add: last_map)
  with l show False using toUpperCase_l by blast
qed

lemma find_snoc:
  "List.find P (xs @ [x]) =
     (case List.find P xs of Some y \<Rightarrow> Some y | None \<Rightarrow> if P x then Some x else None)"
  by (induction xs) auto

lemma map_of_setFolder:
  "map_of (setFolder k f folders) k' =
     (if k' = k then map_option f (map_of folders k) else map_of folders k')"
  by (induction folders) (auto simp: setFolder_def)

lemma keys_setFolder: "map fst (setFolder k f folders) = map fst folders"
  by (induction folders) (auto simp: setFolder_def)

lemma inherit_clean [simp]: "inherit cleanPrototype g = g"
  by (simp add: inherit_def cleanPrototype_def split: option.splits)

lemma folderValue_plain:
  "k \<notin> set inheritedNames \<Longrightarrow>
     folderValue folders cleanPrototype k =
       (case map_of folders k of None \<Rightarrow> Undefined | Some g \<Rightarrow> Group g)"
  by (auto simp: folderValue_def cleanPrototype_def inheritedNames_def split: option.splits)

lemma grouped_visit:
  assumes "grouped files folders"
    and "dir f \<or> folderPathOf (name f) \<notin> set inheritedNames"
  shows "snd (visit (folders, cleanPrototype) f) = cleanPrototype"
    and "grouped (files @ [f]) (fst (visit (folders, cleanPrototype) f))"
proof -
  have "snd (visit (folders, cleanPrototype) f) = cleanPrototype
        \<and> grouped (files @ [f]) (fst (visit (folders, cleanPrototype) f))"
  proof (cases "dir f")
    case True
    with assms(1) show ?thesis
      by (auto simp: grouped_def visit_def inGroup_def lastHtmlOf_def firstImageOf_def find_snoc
               split: option.splits)
  next
    case False
    define k0 where "k0 = folderPathOf (name f)"
    define n where "n = fileNameOf (name f)"
    define f1 where "f1 = (if map_of folders k0 = None
               then folders @ [(k0, \<lparr>htmlFile = None, imageFile = None\<rparr>)] else folders)"
    have plain: "k0 \<notin> set inheritedNames"
      using assms(2) False by (simp add: k0_def)
    from assms(1) have d: "distinct (map fst folders)"
      and m: "\<And>k. map_of folders k =
              (if \<exists>f\<in>set files. inGroup k f
               then Some \<lparr>htmlFile = lastHtmlOf k files, imageFile = firstImageOf k files\<rparr>
               else None)"
      by (auto simp: grouped_def)
    have d1: "distinct (map fst f1)"
      using d by (auto simp: f1_def map_of_eq_None_iff)
    have none: "map_of folders k0 = None \<Longrightarrow>
        lastHtmlOf k0 files = None \<and> firstImageOf k0 files = None"
      using m [of k0]
      by (auto simp: lastHtmlOf_def firstImageOf_def find_None_iff split: if_splits)
    have m1: "map_of f1 k =
         (if k = k0 \<or> (\<exists>f\<in>set files. inGroup k f)
          then Some \<lparr>htmlFile = lastHtmlOf k files, imageFile = firstImageOf k files\<rparr>
          else None)" for k
      using m [of k] m [of k0] none
      by (auto simp: f1_def map_add_def split: if_splits)
    have gf: "inGroup k f \<longleftrightarrow> k = k0" for k
      using False by (auto simp: inGroup_def k0_def)
    have ex: "(\<exists>g\<in>set (files @ [f]). inGroup k g) \<longleftrightarrow> k = k0 \<or> (\<exists>f\<in>set files. inGroup k f)" for k
      using gf by auto
    have hsnoc: "lastHtmlOf k (files @ [f]) =
        (if k = k0 \<and> isHtmlName n then Some f else lastHtmlOf k files)" for k
      using gf by (auto simp: lastHtmlOf_def n_def)
    have isnoc: "firstImageOf k (files @ [f]) =
        (case firstImageOf k files of Some y \<Rightarrow> Some y
         | None \<Rightarrow> if k = k0 \<and> isImageName n then Some f else None)" for k
      using gf by (auto simp: firstImageOf_def n_def find_snoc split: option.splits)
    have fv0: "folderValue folders cleanPrototype k0 = Undefined \<longleftrightarrow> map_of folders k0 = None"
      by (simp add: folderValue_plain [OF plain] split: option.splits)
    have fv1: "folderValue f1 cleanPrototype k0 =
        Group \<lparr>htmlFile = lastHtmlOf k0 files, imageFile = firstImageOf k0 files\<rparr>"
      by (simp add: folderValue_plain [OF plain] m1)
    have v: "visit (folders, cleanPrototype) f =
        ((if isHtmlName n then setFolder k0 (\<lambda>g. g\<lparr>htmlFile := Some f\<rparr>) f1
          else if isImageName n then
            (if firstImageOf k0 files = None
             then setFolder k0 (\<lambda>g. g\<lparr>imageFile := Some f\<rparr>) f1 else f1)
          else f1), cleanPrototype)"
      using False
      by (simp add: visit_def Let_def k0_def [symmetric] n_def [symmetric] fv0 f1_def [symmetric] fv1)
    have keys: "distinct (map fst (fst (visit (folders, cleanPrototype) f)))"
      using d1 by (simp add: v keys_setFolder)
    have look: "map_of (fst (visit (folders, cleanPrototype) f)) k =
        (if \<exists>g\<in>set (files @ [f]). inGroup k g
         then Some \<lparr>htmlFile = lastHtmlOf k (files @ [f]),
                    imageFile = firstImageOf k (files @ [f])\<rparr>
         else None)" for k
      unfolding ex hsnoc isnoc v
      using html_not_image [of n]
      by (cases "firstImageOf k files"; cases "firstImageOf k0 files")
         (auto simp: map_of_setFolder m1)
    show ?thesis
      unfolding grouped_def using keys look by (simp add: v)
  qed
  then show "snd (visit (folders, cleanPrototype) f) = cleanPrototype"
    and "grouped (files @ [f]) (fst (visit (folders, cleanPrototype) f))"
    by simp_all
qed

lemma grouped_groupEntries:
  "plainFolders files \<Longrightarrow>
     snd (groupEntries cleanPrototype files) = cleanPrototype
     \<and> grouped files (fst (groupEntries cleanPrototype files))"
  unfolding groupEntries_def
proof (induction files rule: rev_induct)
  case Nil
  show ?case by (simp add: grouped_def)
next
  case (snoc f files)
  then have p: "plainFolders files" and pf: "dir f \<or> folderPathOf (name f) \<notin> set inheritedNames"
    by (simp_all add: plainFolders_def)
  from snoc.IH [OF p]
  have e: "foldl visit ([], cleanPrototype) files =
           (fst (foldl visit ([], cleanPrototype) files), cleanPrototype)"
    and g: "grouped files (fst (foldl visit ([], cleanPrototype) files))"
    by (simp_all add: prod_eq_iff)
  have "foldl visit ([], cleanPrototype) (files @ [f]) =
        visit (fst (foldl visit ([], cleanPrototype) files), cleanPrototype) f"
    using e by simp
  then show ?case
    using grouped_visit [OF g pf] by simp
qed

lemma groupEntries_lookup:
  assumes "plainFolders files" and "(k, g) \<in> set (fst (groupEntries cleanPrototype files))"
  shows "g = \<lparr>htmlFile = lastHtmlOf k files, imageFile = firstImageOf k files\<rparr>"
proof -
  have gr: "grouped files (fst (groupEntries cleanPrototype files))"
    using grouped_groupEntries [OF assms(1)] by simp
  then have "distinct (map fst (fst (groupEntries cleanPrototype files)))"
    by (simp add: grouped_def)
  then have "map_of (fst (groupEntries cleanPrototype files)) k = Some g"
    using assms(2) by (rule map_of_is_SomeI)
  moreover have "map_of (fst (groupEntries cleanPrototype files)) k =
            (if \<exists>f\<in>set files. inGroup k f
             then Some \<lparr>htmlFile = lastHtmlOf k files, imageFile = firstImageOf k files\<rparr>
             else None)"
    using gr by (simp add: grouped_def)
  ultimately show ?thesis
    by (auto split: if_splits)
qed

text \<open>
  Claim C1, as the code has it. Take an archive none of whose files lies in a folder whose
  path is a name that every object inherits (\<^verbatim>\<open>__proto__\<close>, \<^verbatim>\<open>constructor\<close>, \<^verbatim>\<open>toString\<close> and
  the like), processed while \<^verbatim>\<open>Object.prototype\<close> holds no \<^verbatim>\<open>html\<close> and no \<^verbatim>\<open>image\<close>. Then
  within each group of the grouping pass of \<^verbatim>\<open>processZipData\<close>, the HTML source is the
  \<^emph>\<open>last\<close> enumerated entry of the group that is no directory and whose name is \<^verbatim>\<open>index.html\<close>
  or \<^verbatim>\<open>code.html\<close> or ends in \<^verbatim>\<open>.html\<close> (each such entry overwrites the one before), and the
  image is the \<^emph>\<open>first\<close> enumerated entry of the group whose name ends in \<^verbatim>\<open>.png\<close>, \<^verbatim>\<open>.jpg\<close>,
  \<^verbatim>\<open>.jpeg\<close> or \<^verbatim>\<open>.webp\<close> in any letter case; later images of the group are ignored.
\<close>

theorem group_sources:
  assumes "plainFolders files"
    and "(k, g) \<in> set (fst (groupEntries cleanPrototype files))"
  shows "htmlFile g = lastHtmlOf k files \<and> imageFile g = firstImageOf k files"
  using groupEntries_lookup [OF assms] by simp

theorem group_sources_witness:
  "plainFolders [indexHtml, otherHtml]
   \<and> (''A'', \<lparr>htmlFile = Some otherHtml, imageFile = None\<rparr>)
        \<in> set (fst (groupEntries cleanPrototype [indexHtml, otherHtml]))
   \<and> lastHtmlOf ''A'' [indexHtml, otherHtml] = Some otherHtml
   \<and> firstImageOf ''A'' [indexHtml, otherHtml] = None"
proof -
  have p: "plainFolders [indexHtml, otherHtml]"
    by code_simp
  have m: "(''A'', \<lparr>htmlFile = Some otherHtml, imageFile = None\<rparr>)
        \<in> set (fst (groupEntries cleanPrototype [indexHtml, otherHtml]))"
    by code_simp
  from group_sources [OF p m] p m show ?thesis by simp
qed

text \<open>
  Claim C1 as stated fails for the HTML source: of two HTML entries in one folder the
  second is chosen, not the first.
\<close>

theorem html_source_counterexample:
  "groupEntries cleanPrototype [indexHtml, otherHtml] =
     ([(''A'', \<lparr>htmlFile = Some otherHtml, imageFile = None\<rparr>)], cleanPrototype)
   \<and> firstHtmlOf ''A'' [indexHtml, otherHtml] = Some indexHtml
   \<and> otherHtml \<noteq> indexHtml"
  by code_simp

section \<open>Titles\<close>

text \<open>
  Claim C6. The title derived from a folder path: with the last segment \<^verbatim>\<open>_canvas_screen\<close>
  and the parent segment \<^verbatim>\<open>Home_Page\<close> it is \<^verbatim>\<open>Home Page\<close> (the parent segment replaces the
  placeholder), and so it is for the path \<^verbatim>\<open>_canvas_screen/Home_Page\<close>; the root-level folder
  \<^verbatim>\<open>My_Button\<close> gives \<^verbatim>\<open>My Button\<close>; a title that would read \<^verbatim>\<open>Stitch Landing\<close> is stored as
  \<^verbatim>\<open>Landing\<close>. The same titles come from the folder names written in small letters: the first
  letter of each word is put in upper case. An archive with three such folders yields items
  with these three titles.
\<close>

theorem deriveTitle_examples:
  "deriveTitle ''Home_Page/_canvas_screen'' = ''Home Page''
   \<and> deriveTitle ''_canvas_screen/Home_Page'' = ''Home Page''
   \<and> deriveTitle ''My_Button'' = ''My Button''
   \<and> deriveTitle ''Stitch Landing'' = ''Landing''
   \<and> deriveTitle ''Stitch_Landing'' = ''Landing''
   \<and> deriveTitle ''home_page/_canvas_screen'' = ''Home Page''
   \<and> deriveTitle ''my_button'' = ''My Button''
   \<and> deriveTitle ''stitch landing'' = ''Landing''
   \<and> (case snd (reconstruct (archiveOf titleArchive) runA cleanPrototype zipUrl stitchUrl) of
         Inl err \<Rightarrow> []
       | Inr items \<Rightarrow> map title items) = [''Home Page'', ''My Button'', ''Landing'']"
  by code_simp

section \<open>Messages of the export trigger\<close>

text \<open>
  Claim C4 asks that the coordinator saves the payload of every \<^verbatim>\<open>STITCH_EXPORT_FULL\<close>
  message as a new item. The listener has no branch for this type: such a message leaves the
  whole state, the stored collection included, as it was; and a selection of 51 characters
  makes the export trigger send one.
\<close>

theorem export_full_dropped:
  "onMessage loadAsync rt now (STITCH_EXPORT_FULL payload) sender st = st
   \<and> handleExportTrigger (Some (replicate 51 c)) href sinceMouseMove codeContent targetNode =
       [STITCH_EXPORT_FULL \<lparr>payloadHtml = replicate 51 c, payloadImage = None,
                            payloadSourceUrl = href, payloadTitle = ''Selected Code''\<rparr>]"
  by (simp add: onMessage_def handleExportTrigger_def)

section \<open>Reconstruction\<close>

lemma set_objectEntries: "set (objectEntries props) = set props"
  by (auto simp: objectEntries_def)

lemma length_filter_split:
  "length (filter P (filter A xs)) + length (filter P (filter (\<lambda>x. \<not> A x) xs)) = length (filter P xs)"
  by (induction xs) auto

lemma length_filter_objectEntries:
  "length (filter P (objectEntries props)) = length (filter P props)"
proof -
  have "length (filter P (objectEntries props)) =
        length (filter P (filter (\<lambda>(k, v). isArrayIndex k) props))
        + length (filter P (filter (\<lambda>(k, v). \<not> isArrayIndex k) props))"
    by (simp add: objectEntries_def filter_sort)
  also have "(\<lambda>(k, v). \<not> isArrayIndex k) = (\<lambda>x :: string \<times> 'a. \<not> (case x of (k, v) \<Rightarrow> isArrayIndex k))"
    by auto
  finally show ?thesis
    by (simp only: length_filter_split)
qed

lemma buildItems_step_skip:
  "\<not> hasFile (k, inherit proto g) \<Longrightarrow>
     buildItems rt src proto ((k, g) # groups) acc = buildItems rt src proto groups acc"
  by (simp add: hasFile_def Let_def)

lemma buildItems_step_push:
  assumes "hasFile (k, inherit proto g)"
    and "readHtml (inherit proto g) = Inr h0" and "readImage (inherit proto g) = Inr ib"
  shows "buildItems rt src proto ((k, g) # groups) acc =
         buildItems rt src proto groups
           (acc @ [\<lparr>itemId = toString (dateNow rt (2 * length acc)) @ mathRandom rt (length acc),
                    timestamp = dateNow rt (2 * length acc + 1),
                    html = (if h0 = [] \<and> truthyString ib
                            then (case imageFile (inherit proto g) of
                                    Some f \<Rightarrow> wrapperHtml (name f) | None \<Rightarrow> h0)
                            else h0),
                    image = ib, sourceUrl = src, title = deriveTitle k\<rparr>])"
  using assms by (simp add: hasFile_def Let_def)

lemma buildItems_step_fail:
  assumes "hasFile (k, inherit proto g)"
    and "readHtml (inherit proto g) = Inl e \<or>
         (\<exists>h0. readHtml (inherit proto g) = Inr h0) \<and> readImage (inherit proto g) = Inl e"
  shows "buildItems rt src proto ((k, g) # groups) acc = Inl e"
  using assms by (auto simp: hasFile_def Let_def)

lemma buildItems_no_files:
  "\<forall>kg\<in>set groups. \<not> hasFile (fst kg, inherit proto (snd kg)) \<Longrightarrow>
     buildItems rt src proto groups acc = Inr acc"
proof (induction groups arbitrary: acc)
  case Nil
  show ?case by simp
next
  case (Cons kg groups)
  obtain k g where kg: "kg = (k, g)" by (cases kg)
  from Cons.prems have "\<not> hasFile (k, inherit proto g)" by (simp add: kg)
  then show ?case
    using Cons by (simp add: kg buildItems_step_skip del: buildItems.simps)
qed

lemma buildItems_content:
  assumes "buildItems rt src cleanPrototype groups acc = Inr items"
    and "\<forall>(k, g)\<in>set groups. \<forall>f. htmlFile g = Some f \<longrightarrow> asyncString f = Inr [] \<longrightarrow> imageFile g \<noteq> None"
    and "\<forall>it\<in>set acc. html it \<noteq> [] \<or> image it \<noteq> None"
  shows "\<forall>it\<in>set items. html it \<noteq> [] \<or> image it \<noteq> None"
  using assms
proof (induction groups arbitrary: acc)
  case Nil
  then show ?case by simp
next
  case (Cons kg groups)
  obtain k g where kg: "kg = (k, g)" by (cases kg)
  have p2: "\<forall>(k, g)\<in>set groups. \<forall>f. htmlFile g = Some f \<longrightarrow> asyncString f = Inr [] \<longrightarrow> imageFile g \<noteq> None"
    using Cons.prems(2) by simp
  show ?case
  proof (cases "hasFile (k, g)")
    case False
    then have "buildItems rt src cleanPrototype groups acc = Inr items"
      using Cons.prems(1) by (simp add: kg buildItems_step_skip del: buildItems.simps)
    then show ?thesis using p2 Cons.prems(3) by (rule Cons.IH)
  next
    case True
    from Cons.prems(1) True obtain h0 ib where
      rh: "readHtml g = Inr h0" and ri: "readImage g = Inr ib"
      by (auto simp: kg hasFile_def Let_def split: sum.splits)
    define h where "h = (if h0 = [] \<and> truthyString ib
              then (case imageFile g of Some f \<Rightarrow> wrapperHtml (name f) | None \<Rightarrow> h0) else h0)"
    define item where "item = \<lparr>itemId = toString (dateNow rt (2 * length acc)) @ mathRandom rt (length acc),
                timestamp = dateNow rt (2 * length acc + 1),
                html = h, image = ib, sourceUrl = src, title = deriveTitle k\<rparr>"
    note push = buildItems_step_push [of k cleanPrototype g h0 ib rt src groups acc,
        unfolded inherit_clean, OF True rh ri]
    have rec: "buildItems rt src cleanPrototype groups (acc @ [item]) = Inr items"
      using Cons.prems(1) unfolding kg push item_def h_def .
    have good: "html item \<noteq> [] \<or> image item \<noteq> None"
    proof (cases "imageFile g")
      case (Some f)
      with ri have "ib \<noteq> None" by (auto simp: readImage_def split: sum.splits)
      then show ?thesis by (simp add: item_def)
    next
      case None
      with True obtain f where hf: "htmlFile g = Some f" by (auto simp: hasFile_def)
      with rh have "asyncString f = Inr h0" by (simp add: readHtml_def)
      with Cons.prems(2) hf None have "h0 \<noteq> []" by (auto simp: kg)
      then show ?thesis by (simp add: item_def h_def)
    qed
    have p3: "\<forall>it\<in>set (acc @ [item]). html it \<noteq> [] \<or> image it \<noteq> None"
      using Cons.prems(3) good by simp
    show ?thesis by (rule Cons.IH [OF rec p2 p3])
  qed
qed

lemma buildItems_length:
  "buildItems rt src proto groups acc = Inr items \<Longrightarrow>
     length items = length acc + length (filter (\<lambda>kg. hasFile (fst kg, inherit proto (snd kg))) groups)"
proof (induction groups arbitrary: acc)
  case Nil
  then show ?case by simp
next
  case (Cons kg groups)
  obtain k g where kg: "kg = (k, g)" by (cases kg)
  show ?case
  proof (cases "hasFile (k, inherit proto g)")
    case False
    with Cons show ?thesis by (simp add: kg buildItems_step_skip del: buildItems.simps)
  next
    case True
    from Cons.prems True obtain it where
      "buildItems rt src proto groups (acc @ [it]) = Inr items"
      by (auto simp: kg hasFile_def Let_def split: sum.splits)
    from Cons.IH [OF this] True show ?thesis by (simp add: kg)
  qed
qed

lemma buildItems_runtime:
  "map eraseIdTime acc1 = map eraseIdTime acc2 \<Longrightarrow>
     eraseIdsTimes (buildItems rt1 src proto groups acc1) =
     eraseIdsTimes (buildItems rt2 src proto groups acc2)"
proof (induction groups arbitrary: acc1 acc2)
  case Nil
  then show ?case by (simp add: eraseIdsTimes_def)
next
  case (Cons kg groups)
  obtain k g where kg: "kg = (k, g)" by (cases kg)
  have len: "length acc1 = length acc2"
    using Cons.prems by (metis length_map)
  show ?case
  proof (cases "hasFile (k, inherit proto g)")
    case False
    with Cons show ?thesis by (simp add: kg buildItems_step_skip del: buildItems.simps)
  next
    case True
    show ?thesis
    proof (cases "readHtml (inherit proto g)")
      case (Inl e)
      with True show ?thesis
        by (simp add: kg buildItems_step_fail eraseIdsTimes_def del: buildItems.simps)
    next
      case h: (Inr h0)
      show ?thesis
      proof (cases "readImage (inherit proto g)")
        case (Inl e)
        with True h show ?thesis
          by (simp add: kg buildItems_step_fail eraseIdsTimes_def del: buildItems.simps)
      next
        case (Inr ib)
        define hh where "hh = (if h0 = [] \<and> truthyString ib
              then (case imageFile (inherit proto g) of
                      Some f \<Rightarrow> wrapperHtml (name f) | None \<Rightarrow> h0) else h0)"
        define item where "item = (\<lambda>rt :: Runtime. \<lparr>itemId = toString (dateNow rt (2 * length acc2)) @ mathRandom rt (length acc2),
                timestamp = dateNow rt (2 * length acc2 + 1),
                html = hh, image = ib, sourceUrl = src, title = deriveTitle k\<rparr>)"
        have b1: "buildItems rt1 src proto (kg # groups) acc1 =
                  buildItems rt1 src proto groups (acc1 @ [item rt1])"
          using buildItems_step_push [OF True h Inr, of rt1 src groups acc1]
          by (simp add: kg item_def hh_def len del: buildItems.simps)
        have b2: "buildItems rt2 src proto (kg # groups) acc2 =
                  buildItems rt2 src proto groups (acc2 @ [item rt2])"
          using buildItems_step_push [OF True h Inr, of rt2 src groups acc2]
          by (simp add: kg item_def hh_def del: buildItems.simps)
        have "eraseIdTime (item rt1) = eraseIdTime (item rt2)"
          by (simp add: item_def eraseIdTime_def)
        then have "map eraseIdTime (acc1 @ [item rt1]) = map eraseIdTime (acc2 @ [item rt2])"
          using Cons.prems by simp
        then show ?thesis
          unfolding b1 b2 by (rule Cons.IH)
      qed
    qed
  qed
qed

lemma reconstruct_plain:
  assumes "loadAsync (dataPart base64DataUrl) = Inr files" and "plainFolders files"
  shows "reconstruct loadAsync rt cleanPrototype base64DataUrl src =
         (cleanPrototype,
          buildItems rt src cleanPrototype
            (objectEntries (fst (groupEntries cleanPrototype files))) [])"
proof -
  obtain folders proto' where g: "groupEntries cleanPrototype files = (folders, proto')"
    by (cases "groupEntries cleanPrototype files")
  have p: "proto' = cleanPrototype"
    using grouped_groupEntries [OF assms(2)] g by simp
  show ?thesis
    by (simp add: reconstruct_def assms(1) g p)
qed

lemma processZipData_storage:
  "storage (processZipData loadAsync rt now base64DataUrl src tab st) =
     (case snd (reconstruct loadAsync rt (objectPrototype st) base64DataUrl src) of
        Inl err \<Rightarrow> storage st
      | Inr newItems \<Rightarrow>
          if newItems = [] then storage st else prependItems newItems (storage st))"
  by (simp add: processZipData_def scheduleNotification_def setTimeout_def clearTimeout_def
        Let_def split: prod.splits sum.splits option.splits)

text \<open>
  Claim C2 asks that a group with an image and no HTML yields one item whose \<^verbatim>\<open>html\<close> embeds
  the data of the image. For an archive whose only entry is \<^verbatim>\<open>Screen/preview.png\<close> the code
  yields one item, with a non-empty \<^verbatim>\<open>html\<close>, but the wrapper refers to the image by its path in
  the archive (\<^verbatim>\<open>files.image.name\<close>): the document is the same whatever the data \<open>b64\<close> of the
  image, and the data URL is only in the field \<^verbatim>\<open>image\<close>.
\<close>

theorem image_only_wrapper_names_path:
  "reconstruct (archiveOf [previewPng b64]) rt cleanPrototype base64DataUrl src =
     (cleanPrototype,
      Inr [\<lparr>itemId = toString (dateNow rt 0) @ mathRandom rt 0,
            timestamp = dateNow rt 1,
            html = wrapperHtml ''Screen/preview.png'',
            image = Some (''data:image/png;base64,'' @ b64),
            sourceUrl = src,
            title = ''Screen''\<rparr>])"
proof -
  have g: "groupEntries cleanPrototype [previewPng b64] =
      ([(''Screen'', \<lparr>htmlFile = None, imageFile = Some (previewPng b64)\<rparr>)], cleanPrototype)"
    by (simp add: groupEntries_def visit_def previewPng_def entry_def fileNameOf_def
        folderPathOf_def isHtmlName_def isImageName_def endsWith_def toUpperCase_def setFolder_def
        folderValue_def inheritedNames_def cleanPrototype_def inherit_def)
  have o: "objectEntries [(''Screen'', v)] = [(''Screen'', v)]" for v :: FolderFiles
    by (simp add: objectEntries_def isArrayIndex_def)
  have t: "deriveTitle ''Screen'' = ''Screen''"
    by code_simp
  have x: "last (split CHR ''.'' ''Screen/preview.png'') = ''png''"
    by code_simp
  have "reconstruct (archiveOf [previewPng b64]) rt cleanPrototype base64DataUrl src =
        (cleanPrototype,
         buildItems rt src cleanPrototype
           [(''Screen'', \<lparr>htmlFile = None, imageFile = Some (previewPng b64)\<rparr>)] [])"
    by (simp add: reconstruct_def archiveOf_def g o)
  also have "\<dots> =
     (cleanPrototype,
      Inr [\<lparr>itemId = toString (dateNow rt 0) @ mathRandom rt 0,
           timestamp = dateNow rt 1,
           html = wrapperHtml ''Screen/preview.png'',
           image = Some (''data:image/png;base64,'' @ b64),
           sourceUrl = src,
           title = ''Screen''\<rparr>])"
    by (simp add: readHtml_def readImage_def truthyString_def previewPng_def entry_def x t
          Let_def)
  finally show ?thesis .
qed




text \<open>
  When the data does not decode, \<^verbatim>\<open>processZipData\<close> ends normally with the error logged and
  every other part of the state as before. An empty archive leaves the whole state as it is,
  and so does an archive none of whose files has an HTML or image name, as long as
  \<^verbatim>\<open>Object.prototype\<close> holds no \<^verbatim>\<open>html\<close> and no \<^verbatim>\<open>image\<close>.
\<close>

lemma decode_failure_only_logged:
  "loadAsync (dataPart base64DataUrl) = Inl e \<Longrightarrow>
     processZipData loadAsync rt now base64DataUrl src tab st = st\<lparr>errors := errors st @ [e]\<rparr>"
  by (simp add: processZipData_def reconstruct_def)

lemma empty_archive_is_noop:
  "loadAsync (dataPart base64DataUrl) = Inr [] \<Longrightarrow>
     processZipData loadAsync rt now base64DataUrl src tab st = st"
  by (simp add: processZipData_def reconstruct_def groupEntries_def objectEntries_def)

lemma unmatched_visit:
  assumes "\<forall>kg\<in>set folders. snd kg = \<lparr>htmlFile = None, imageFile = None\<rparr>"
    and "\<not> dir f \<longrightarrow> \<not> isHtmlName (fileNameOf (name f)) \<and> \<not> isImageName (fileNameOf (name f))"
  shows "snd (visit (folders, proto) f) = proto
         \<and> (\<forall>kg\<in>set (fst (visit (folders, proto) f)).
               snd kg = \<lparr>htmlFile = None, imageFile = None\<rparr>)"
  using assms by (simp add: visit_def Let_def)

lemma unmatched_groupEntries:
  assumes "\<forall>f\<in>set files. \<not> dir f \<longrightarrow>
             \<not> isHtmlName (fileNameOf (name f)) \<and> \<not> isImageName (fileNameOf (name f))"
  shows "snd (groupEntries proto files) = proto
         \<and> (\<forall>kg\<in>set (fst (groupEntries proto files)).
               snd kg = \<lparr>htmlFile = None, imageFile = None\<rparr>)"
  using assms
proof (induction files rule: rev_induct)
  case Nil
  show ?case by (simp add: groupEntries_def)
next
  case (snoc f files)
  obtain folders proto' where g: "groupEntries proto files = (folders, proto')"
    by (cases "groupEntries proto files")
  have ih: "proto' = proto" "\<forall>kg\<in>set folders. snd kg = \<lparr>htmlFile = None, imageFile = None\<rparr>"
    using snoc g by simp_all
  have f: "\<not> dir f \<longrightarrow> \<not> isHtmlName (fileNameOf (name f)) \<and> \<not> isImageName (fileNameOf (name f))"
    using snoc.prems by simp
  have e: "groupEntries proto (files @ [f]) = visit (folders, proto) f"
    using g ih(1) by (simp add: groupEntries_def)
  show ?case
    unfolding e by (rule unmatched_visit [OF ih(2) f])
qed

lemma unmatched_archive_is_noop:
  assumes "loadAsync (dataPart base64DataUrl) = Inr files"
    and "objectPrototype st = cleanPrototype"
    and "\<forall>f\<in>set files. \<not> dir f \<longrightarrow>
             \<not> isHtmlName (fileNameOf (name f)) \<and> \<not> isImageName (fileNameOf (name f))"
  shows "processZipData loadAsync rt now base64DataUrl src tab st = st"
proof -
  obtain folders proto' where g: "groupEntries cleanPrototype files = (folders, proto')"
    by (cases "groupEntries cleanPrototype files")
  have u: "proto' = cleanPrototype"
    "\<forall>kg\<in>set folders. snd kg = \<lparr>htmlFile = None, imageFile = None\<rparr>"
    using unmatched_groupEntries [OF assms(3), of cleanPrototype] g by simp_all
  have "\<forall>kg\<in>set (objectEntries folders). \<not> hasFile (fst kg, inherit cleanPrototype (snd kg))"
    using u(2) by (simp add: set_objectEntries hasFile_def)
  then have b: "buildItems rt src cleanPrototype (objectEntries folders) [] = Inr []"
    by (rule buildItems_no_files)
  have p: "st\<lparr>objectPrototype := cleanPrototype\<rparr> = st"
    using assms(2) by simp
  show ?thesis
    by (simp add: processZipData_def reconstruct_def assms(1,2) g u(1) b p)
qed

text \<open>
  Claim C5 asks that an archive with non-matching files only yields no item, with no write to
  the stored collection and no notification. It fails once an archive with an HTML file in a
  folder named \<^verbatim>\<open>__proto__\<close> has been processed: that archive stores nothing and leaves the
  file in \<^verbatim>\<open>Object.prototype.html\<close>; the next archive holds \<^verbatim>\<open>docs/README.txt\<close> alone, its
  group inherits that HTML source, and an item titled \<^verbatim>\<open>Docs\<close> is stored and a notification
  scheduled.
\<close>

theorem unmatched_archive_stored_after_proto_folder:
  "twoArchives (dataPart zipUrl) = Inr [protoIndex]
   \<and> twoArchives (dataPart zipUrl2) = Inr [readme]
   \<and> \<not> isHtmlName (fileNameOf (name readme)) \<and> \<not> isImageName (fileNameOf (name readme))
   \<and> processZipData twoArchives runA 0 zipUrl stitchUrl None initialBg =
       initialBg\<lparr>objectPrototype := \<lparr>protoHtml = Some protoIndex, protoImage = None\<rparr>\<rparr>
   \<and> capturedItems (storage
        (processZipData twoArchives runB 5000 zipUrl2 stitchUrl None
           (processZipData twoArchives runA 0 zipUrl stitchUrl None initialBg))) =
       Some [\<lparr>itemId = ''1700000005000p07zt41mc'', timestamp = 1700000005001,
              html = ''<p>proto</p>'', image = None, sourceUrl = stitchUrl, title = ''Docs''\<rparr>]
   \<and> notificationBatch
        (processZipData twoArchives runB 5000 zipUrl2 stitchUrl None
           (processZipData twoArchives runA 0 zipUrl stitchUrl None initialBg)) =
       Some \<lparr>count = 1, tabId = None\<rparr>
   \<and> timers
        (processZipData twoArchives runB 5000 zipUrl2 stitchUrl None
           (processZipData twoArchives runA 0 zipUrl stitchUrl None initialBg)) =
       [(1, 6000, FlushNotification)]"
proof -
  have r: "reconstruct twoArchives runA cleanPrototype zipUrl stitchUrl =
             (\<lparr>protoHtml = Some protoIndex, protoImage = None\<rparr>, Inr [])"
    by code_simp
  have s1: "processZipData twoArchives runA 0 zipUrl stitchUrl None initialBg =
       initialBg\<lparr>objectPrototype := \<lparr>protoHtml = Some protoIndex, protoImage = None\<rparr>\<rparr>"
    by (simp add: processZipData_def initialBg_def r)
  have a: "twoArchives (dataPart zipUrl) = Inr [protoIndex]"
    by code_simp
  have b: "twoArchives (dataPart zipUrl2) = Inr [readme]"
    by code_simp
  have c: "\<not> isHtmlName (fileNameOf (name readme)) \<and> \<not> isImageName (fileNameOf (name readme))"
    by code_simp
  have d: "capturedItems (storage
        (processZipData twoArchives runB 5000 zipUrl2 stitchUrl None
           (initialBg\<lparr>objectPrototype := \<lparr>protoHtml = Some protoIndex, protoImage = None\<rparr>\<rparr>))) =
       Some [\<lparr>itemId = ''1700000005000p07zt41mc'', timestamp = 1700000005001,
              html = ''<p>proto</p>'', image = None, sourceUrl = stitchUrl, title = ''Docs''\<rparr>]"
    by code_simp
  have e: "notificationBatch
        (processZipData twoArchives runB 5000 zipUrl2 stitchUrl None
           (initialBg\<lparr>objectPrototype := \<lparr>protoHtml = Some protoIndex, protoImage = None\<rparr>\<rparr>)) =
       Some \<lparr>count = 1, tabId = None\<rparr>"
    by code_simp
  have f: "timers
        (processZipData twoArchives runB 5000 zipUrl2 stitchUrl None
           (initialBg\<lparr>objectPrototype := \<lparr>protoHtml = Some protoIndex, protoImage = None\<rparr>\<rparr>)) =
       [(1, 6000, FlushNotification)]"
    by code_simp
  note c1 = c [THEN conjunct1] and c2 = c [THEN conjunct2]
  show ?thesis
    unfolding s1
    apply (intro conjI)
          apply (rule a)
         apply (rule b)
        apply (rule c1)
       apply (rule c2)
      apply (rule refl)
     apply (rule d)
    apply (rule e)
    apply (rule f)
    done
qed




section \<open>Renaming\<close>

text \<open>
  Claim C7, as the code has it. The sanitized title is the input without the characters
  \<^verbatim>\<open>< > : " / \ | ? *\<close> and with the surrounding whitespace trimmed. Saving a title on the
  preview page writes the stored collection with that title, or \<^verbatim>\<open>Untitled Design\<close> when it is
  empty, on every item with the id of the previewed item and every other item as it was, and
  writes the previewed item with that title as the preview hand-off. Saving a title on a card
  of the side panel, when the sanitized title is not empty, writes the list of the side panel
  with that title on every item with the id of the card, so the card's item is stored with
  it; when it is empty no rename takes place and the storage stays as it is.
\<close>

theorem save_title_stores_sanitized:
  "sanitizeTitle input =
     trim (filter (\<lambda>c. c \<notin> {CHR ''<'', CHR ''>'', CHR '':'', CHR 0x22, CHR ''/'', CHR 0x5C,
                               CHR ''|'', CHR ''?'', CHR ''*''}) input)
   \<and> previewSaveTitle (Some d) input sto =
       (Some (d\<lparr>title := (if sanitizeTitle input = [] then ''Untitled Design''
                            else sanitizeTitle input)\<rparr>),
        sto\<lparr>capturedItems :=
               Some (map (\<lambda>item. if itemId item = itemId d
                                  then item\<lparr>title := (if sanitizeTitle input = []
                                                        then ''Untitled Design''
                                                        else sanitizeTitle input)\<rparr>
                                  else item)
                         (storedItems sto)),
            previewData :=
               Some (d\<lparr>title := (if sanitizeTitle input = [] then ''Untitled Design''
                                   else sanitizeTitle input)\<rparr>)\<rparr>)
   \<and> (sanitizeTitle input \<noteq> [] \<longrightarrow>
         cardSaveTitle cardItem input items sto =
           sto\<lparr>capturedItems :=
                  Some (map (\<lambda>item. if itemId item = itemId cardItem
                                     then item\<lparr>title := sanitizeTitle input\<rparr> else item)
                            items)\<rparr>)
   \<and> (sanitizeTitle input \<noteq> [] \<longrightarrow> cardItem \<in> set items \<longrightarrow>
         cardItem\<lparr>title := sanitizeTitle input\<rparr>
           \<in> set (storedItems (cardSaveTitle cardItem input items sto)))
   \<and> (sanitizeTitle input = [] \<longrightarrow> cardSaveTitle cardItem input items sto = sto)"
proof -
  have 1: "sanitizeTitle input =
     trim (filter (\<lambda>c. c \<notin> {CHR ''<'', CHR ''>'', CHR '':'', CHR 0x22, CHR ''/'', CHR 0x5C,
                               CHR ''|'', CHR ''?'', CHR ''*''}) input)"
    by (simp add: sanitizeTitle_def invalidFilenameChars_def)
  have 2: "previewSaveTitle (Some d) input sto =
       (Some (d\<lparr>title := (if sanitizeTitle input = [] then ''Untitled Design''
                            else sanitizeTitle input)\<rparr>),
        sto\<lparr>capturedItems :=
               Some (map (\<lambda>item. if itemId item = itemId d
                                  then item\<lparr>title := (if sanitizeTitle input = []
                                                        then ''Untitled Design''
                                                        else sanitizeTitle input)\<rparr>
                                  else item)
                         (storedItems sto)),
            previewData :=
               Some (d\<lparr>title := (if sanitizeTitle input = [] then ''Untitled Design''
                                   else sanitizeTitle input)\<rparr>)\<rparr>)"
    by (simp add: previewSaveTitle_def Let_def storedItems_def retitle_def)
  have 3: "sanitizeTitle input \<noteq> [] \<longrightarrow>
         cardSaveTitle cardItem input items sto =
           sto\<lparr>capturedItems :=
                  Some (map (\<lambda>item. if itemId item = itemId cardItem
                                     then item\<lparr>title := sanitizeTitle input\<rparr> else item)
                            items)\<rparr>"
    by (simp add: cardSaveTitle_def handleRename_def retitle_def)
  have 4: "sanitizeTitle input \<noteq> [] \<longrightarrow> cardItem \<in> set items \<longrightarrow>
         cardItem\<lparr>title := sanitizeTitle input\<rparr>
           \<in> set (storedItems (cardSaveTitle cardItem input items sto))"
  proof (intro impI)
    assume n: "sanitizeTitle input \<noteq> []" and m: "cardItem \<in> set items"
    have "(\<lambda>item. if itemId item = itemId cardItem
                   then item\<lparr>title := sanitizeTitle input\<rparr> else item) cardItem
          \<in> (\<lambda>item. if itemId item = itemId cardItem
                   then item\<lparr>title := sanitizeTitle input\<rparr> else item) ` set items"
      using m by (rule imageI)
    then show "cardItem\<lparr>title := sanitizeTitle input\<rparr>
           \<in> set (storedItems (cardSaveTitle cardItem input items sto))"
      using n by (simp add: cardSaveTitle_def handleRename_def retitle_def storedItems_def)
  qed
  have 5: "sanitizeTitle input = [] \<longrightarrow> cardSaveTitle cardItem input items sto = sto"
    by (simp add: cardSaveTitle_def)
  show ?thesis
    by (intro conjI 1 2 3 4 5)
qed

theorem save_title_stores_sanitized_witness:
  "sanitizeTitle '' My <Landing>: v2? '' = ''My Landing v2''
   \<and> previewSaveTitle (Some landing) '' My <Landing>: v2? '' landingStored =
       (Some (landing\<lparr>title := ''My Landing v2''\<rparr>),
        \<lparr>capturedItems = Some [landing\<lparr>title := ''My Landing v2''\<rparr>],
         previewData = Some (landing\<lparr>title := ''My Landing v2''\<rparr>)\<rparr>)
   \<and> previewSaveTitle (Some landing) ''<>:?*'' landingStored =
       (Some (landing\<lparr>title := ''Untitled Design''\<rparr>),
        \<lparr>capturedItems = Some [landing\<lparr>title := ''Untitled Design''\<rparr>],
         previewData = Some (landing\<lparr>title := ''Untitled Design''\<rparr>)\<rparr>)
   \<and> cardSaveTitle landing '' My <Landing>: v2? '' [landing] landingStored =
       \<lparr>capturedItems = Some [landing\<lparr>title := ''My Landing v2''\<rparr>],
        previewData = Some landing\<rparr>
   \<and> cardSaveTitle landing ''<>:?*'' [landing] landingStored = landingStored"
proof -
  have s1: "sanitizeTitle '' My <Landing>: v2? '' = ''My Landing v2''" by code_simp
  have s2: "sanitizeTitle ''<>:?*'' = []" by code_simp
  note t1 = save_title_stores_sanitized
      [of "'' My <Landing>: v2? ''" landing landingStored landing "[landing]"]
  note t2 = save_title_stores_sanitized [of "''<>:?*''" landing landingStored landing "[landing]"]
  have a: "previewSaveTitle (Some landing) '' My <Landing>: v2? '' landingStored =
       (Some (landing\<lparr>title := ''My Landing v2''\<rparr>),
        \<lparr>capturedItems = Some [landing\<lparr>title := ''My Landing v2''\<rparr>],
         previewData = Some (landing\<lparr>title := ''My Landing v2''\<rparr>)\<rparr>)"
    using t1 [THEN conjunct2, THEN conjunct1] unfolding s1
    by (simp add: landingStored_def storedItems_def)
  have b: "previewSaveTitle (Some landing) ''<>:?*'' landingStored =
       (Some (landing\<lparr>title := ''Untitled Design''\<rparr>),
        \<lparr>capturedItems = Some [landing\<lparr>title := ''Untitled Design''\<rparr>],
         previewData = Some (landing\<lparr>title := ''Untitled Design''\<rparr>)\<rparr>)"
    using t2 [THEN conjunct2, THEN conjunct1] unfolding s2
    by (simp add: landingStored_def storedItems_def)
  have c: "cardSaveTitle landing '' My <Landing>: v2? '' [landing] landingStored =
       \<lparr>capturedItems = Some [landing\<lparr>title := ''My Landing v2''\<rparr>],
        previewData = Some landing\<rparr>"
    using t1 [THEN conjunct2, THEN conjunct2, THEN conjunct1] unfolding s1
    by (simp add: landingStored_def)
  have d: "cardSaveTitle landing ''<>:?*'' [landing] landingStored = landingStored"
    using t2 [THEN conjunct2, THEN conjunct2, THEN conjunct2, THEN conjunct2] s2 by blast
  from s1 a b c d show ?thesis by (intro conjI)
qed

text \<open>
  Claim C7 as stated fails on the card: an input of invalid characters only leaves the stored
  title \<^verbatim>\<open>Landing\<close>, it does not become \<^verbatim>\<open>Untitled Design\<close>.
\<close>

theorem card_title_counterexample:
  "sanitizeTitle ''<>:?*'' = []
   \<and> map title (storedItems (cardSaveTitle landing ''<>:?*'' [landing] landingStored)) = [''Landing'']"
  by code_simp

section \<open>Toggling the side panel\<close>

lemma ltt_chromeCall [simp]: "lastToggleTimes (chromeCall c st) = lastToggleTimes st"
  by (simp add: chromeCall_def)

lemma ltt_broadcast [simp]:
  "lastToggleTimes (broadcastSidePanelState tq now w b st) = lastToggleTimes st"
  by (simp add: broadcastSidePanelState_def split: list.splits option.splits)

lemma ltt_scheduleNotification [simp]:
  "lastToggleTimes (scheduleNotification now c t st) = lastToggleTimes st"
  by (simp add: scheduleNotification_def setTimeout_def clearTimeout_def Let_def split: option.splits)

lemma ltt_processZipData [simp]:
  "lastToggleTimes (processZipData loadAsync rt now d u t st) = lastToggleTimes st"
  by (simp add: processZipData_def Let_def split: prod.splits sum.splits)

lemma ltt_saveSingleImageDesign [simp]:
  "lastToggleTimes (saveSingleImageDesign rt d u f st) = lastToggleTimes st"
  by (simp add: saveSingleImageDesign_def Let_def)

lemma ltt_runCallback [simp]: "lastToggleTimes (runCallback tq st timer) = lastToggleTimes st"
  by (simp add: runCallback_def flushNotification_def showNotification_def reenablePanel_def Let_def
           split: prod.splits TimerCallback.splits option.splits)

lemma ltt_foldl_runCallback [simp]:
  "lastToggleTimes (foldl (runCallback tq) st ts) = lastToggleTimes st"
  by (induction ts arbitrary: st) simp_all

lemma ltt_advance [simp]: "lastToggleTimes (advance tq t st) = lastToggleTimes st"
  by (simp add: advance_def)

lemma ltt_toggle_other:
  "t' \<noteq> t \<Longrightarrow> lastToggleTimes (toggleSidePanel now w t' st) t = lastToggleTimes st t"
  by (simp add: toggleSidePanel_def setTimeout_def Let_def)

lemma ltt_toggle_same:
  "lastToggleTimes (toggleSidePanel now w t st) t = Some now"
  by (simp add: toggleSidePanel_def setTimeout_def Let_def)

lemma ltt_handleEvent:
  "\<not> isToggleFrom t ev \<Longrightarrow>
     lastToggleTimes (handleEvent loadAsync tq now ev st) t = lastToggleTimes st t"
proof (cases ev)
  case (RuntimeMessage rt request sender)
  assume n: "\<not> isToggleFrom t ev"
  show ?thesis
  proof (cases request)
    case TOGGLE_SIDE_PANEL
    with n RuntimeMessage have "senderTabId sender \<noteq> Some t"
      by (simp add: isToggleFrom_def)
    then show ?thesis
      using RuntimeMessage TOGGLE_SIDE_PANEL
      by (auto simp: handleEvent_def onMessage_def ltt_toggle_other split: option.splits)
  qed (simp_all add: RuntimeMessage handleEvent_def onMessage_def split: option.splits)
qed (simp_all add: handleEvent_def portInit_def portDisconnect_def split: option.splits)

lemma ltt_run:
  "\<forall>tev\<in>set tevs. \<not> isToggleFrom t (snd tev) \<Longrightarrow>
     lastToggleTimes (run loadAsync tq tevs st) t = lastToggleTimes st t"
  unfolding run_def
  by (induction tevs arbitrary: st) (simp_all add: step_def ltt_handleEvent)

lemma osp_chromeCall [simp]: "openSidePanels (chromeCall c st) = openSidePanels st"
  by (simp add: chromeCall_def)

lemma osp_broadcast [simp]:
  "openSidePanels (broadcastSidePanelState tq now w b st) = openSidePanels st"
  by (simp add: broadcastSidePanelState_def split: list.splits option.splits)

lemma osp_scheduleNotification [simp]:
  "openSidePanels (scheduleNotification now c t st) = openSidePanels st"
  by (simp add: scheduleNotification_def setTimeout_def clearTimeout_def Let_def split: option.splits)

lemma osp_processZipData [simp]:
  "openSidePanels (processZipData loadAsync rt now d u t st) = openSidePanels st"
  by (simp add: processZipData_def Let_def split: prod.splits sum.splits)

lemma osp_saveSingleImageDesign [simp]:
  "openSidePanels (saveSingleImageDesign rt d u f st) = openSidePanels st"
  by (simp add: saveSingleImageDesign_def Let_def)

lemma osp_runCallback [simp]: "openSidePanels (runCallback tq st timer) = openSidePanels st"
  by (simp add: runCallback_def flushNotification_def showNotification_def reenablePanel_def Let_def
           split: prod.splits TimerCallback.splits option.splits)

lemma osp_foldl_runCallback [simp]:
  "openSidePanels (foldl (runCallback tq) st ts) = openSidePanels st"
  by (induction ts arbitrary: st) simp_all

lemma osp_advance [simp]: "openSidePanels (advance tq t st) = openSidePanels st"
  by (simp add: advance_def)

lemma osp_toggle [simp]: "openSidePanels (toggleSidePanel now w t st) = openSidePanels st"
  by (simp add: toggleSidePanel_def setTimeout_def Let_def)

lemma osp_onMessage [simp]:
  "openSidePanels (onMessage loadAsync rt now request sender st) = openSidePanels st"
  by (cases request) (simp_all add: onMessage_def split: option.splits)

lemma osp_handleEvent:
  "w \<notin> openSidePanels st \<Longrightarrow> ev \<noteq> PortInit (Some w) \<Longrightarrow>
     w \<notin> openSidePanels (handleEvent loadAsync tq now ev st)"
  by (cases ev) (auto simp: handleEvent_def portInit_def portDisconnect_def split: option.splits)

lemma osp_run:
  "w \<notin> openSidePanels st \<Longrightarrow> \<forall>tev\<in>set tevs. snd tev \<noteq> PortInit (Some w) \<Longrightarrow>
     w \<notin> openSidePanels (run loadAsync tq tevs st)"
  unfolding run_def
  by (induction tevs arbitrary: st) (simp_all add: step_def osp_handleEvent)

lemma toggle_after_recent:
  assumes "lastToggleTimes s t = Some now1" and "\<bar>now2 - now1\<bar> < 1000"
  shows "toggleSidePanel now2 w t s =
     s\<lparr>lastToggleTimes := (lastToggleTimes s)(t \<mapsto> now2),
       timers := timers s @ [(Suc (timersCreated s), now2 + 10,
                               ReenablePanel t (w \<notin> openSidePanels s) w)],
       timersCreated := Suc (timersCreated s),
       calls := calls s @ [SidePanelSetOptions t False None]\<rparr>"
  using assms
  by (auto simp: toggleSidePanel_def setTimeout_def chromeCall_def Let_def)

lemma calls_broadcast:
  "\<exists>cs. calls (broadcastSidePanelState tq now w b st) = calls st @ cs"
  by (simp add: broadcastSidePanelState_def chromeCall_def split: list.splits option.splits)

lemma calls_runCallback:
  "\<exists>cs. calls (runCallback tq st timer) = calls st @ cs"
proof (cases timer)
  case (fields h due cb)
  show ?thesis
  proof (cases cb)
    case FlushNotification
    then show ?thesis
      using fields
      by (simp add: runCallback_def flushNotification_def showNotification_def chromeCall_def
            Let_def split: option.splits)
  next
    case (ReenablePanel t k w)
    obtain cs where "calls (broadcastSidePanelState tq due w False
        (chromeCall (SidePanelSetOptions t True (Some ''index.html'')) st)) =
        calls (chromeCall (SidePanelSetOptions t True (Some ''index.html'')) st) @ cs"
      using calls_broadcast by blast
    then show ?thesis
      using fields ReenablePanel
      by (simp add: runCallback_def reenablePanel_def chromeCall_def Let_def)
  qed
qed

lemma calls_runCallback_reenable:
  "\<exists>cs. calls (runCallback tq st (h, due, ReenablePanel t k w)) =
          calls st @ SidePanelSetOptions t True (Some ''index.html'') # cs"
proof -
  obtain cs where "calls (broadcastSidePanelState tq due w False
      (chromeCall (SidePanelSetOptions t True (Some ''index.html'')) st)) =
      calls (chromeCall (SidePanelSetOptions t True (Some ''index.html'')) st) @ cs"
    using calls_broadcast by blast
  then show ?thesis
    by (simp add: runCallback_def reenablePanel_def chromeCall_def Let_def)
qed

lemma calls_foldl_runCallback:
  "\<exists>cs. calls (foldl (runCallback tq) st ts) = calls st @ cs"
proof (induction ts arbitrary: st)
  case Nil
  show ?case by simp
next
  case (Cons timer ts)
  obtain cs1 where 1: "calls (runCallback tq st timer) = calls st @ cs1"
    using calls_runCallback by blast
  obtain cs2 where 2: "calls (foldl (runCallback tq) (runCallback tq st timer) ts) =
      calls (runCallback tq st timer) @ cs2"
    using Cons.IH by blast
  show ?case
    by (rule exI [of _ "cs1 @ cs2"]) (simp add: 1 2)
qed

lemma calls_foldl_reenable:
  assumes "(h, due, ReenablePanel t k w) \<in> set ts"
  shows "\<exists>before after. calls (foldl (runCallback tq) st ts) =
           calls st @ before @ SidePanelSetOptions t True (Some ''index.html'') # after"
proof -
  obtain xs ys where ts: "ts = xs @ (h, due, ReenablePanel t k w) # ys"
    using assms by (meson split_list)
  define s1 where "s1 = foldl (runCallback tq) st xs"
  define s2 where "s2 = runCallback tq s1 (h, due, ReenablePanel t k w)"
  obtain before where 1: "calls s1 = calls st @ before"
    unfolding s1_def using calls_foldl_runCallback by blast
  obtain cs where 2: "calls s2 = calls s1 @ SidePanelSetOptions t True (Some ''index.html'') # cs"
    unfolding s2_def using calls_runCallback_reenable by blast
  obtain cs' where 3: "calls (foldl (runCallback tq) s2 ys) = calls s2 @ cs'"
    using calls_foldl_runCallback by blast
  have "foldl (runCallback tq) st ts = foldl (runCallback tq) s2 ys"
    by (simp add: ts s1_def s2_def)
  then have "calls (foldl (runCallback tq) st ts) =
      calls st @ before @ SidePanelSetOptions t True (Some ''index.html'') # (cs @ cs')"
    by (simp add: 1 2 3)
  then show ?thesis by blast
qed

lemma calls_advance_reenable:
  assumes "(h, due, ReenablePanel t k w) \<in> set (timers st)" and "due \<le> later"
  shows "\<exists>before after. calls (advance tq later st) =
           calls st @ before @ SidePanelSetOptions t True (Some ''index.html'') # after"
proof -
  have m: "(h, due, ReenablePanel t k w)
        \<in> set (sort_key (\<lambda>(h, due, cb). due) (filter (\<lambda>(h, due, cb). due \<le> later) (timers st)))"
    using assms by simp
  show ?thesis
    unfolding advance_def
    using calls_foldl_reenable [OF m, of tq
        "st\<lparr>timers := filter (\<lambda>(h, due, cb). \<not> due \<le> later) (timers st)\<rparr>"]
    by simp
qed

text \<open>
  Claim C9. The window \<open>windowId\<close> is not in the open-panel set, a content script of its tab
  \<open>t\<close> sends \<^verbatim>\<open>TOGGLE_SIDE_PANEL\<close> at \<open>now1\<close>, any events but a toggle of that tab follow, and the
  tab sends \<^verbatim>\<open>TOGGLE_SIDE_PANEL\<close> again at \<open>now2\<close>, less than a second from \<open>now1\<close>. Then the
  second request makes one call, which disables the panel of the tab, and no call of
  \<^verbatim>\<open>sidePanel.open\<close>; it sets the timer that re-enables the panel 10 ms later. When no panel of
  the window has connected in between, the window is still believed closed and the request
  counts as stuck. Once the 10 ms have passed, the call that enables the panel of the tab
  again has been made, after the disabling one; when no other timer was waiting, what has
  happened since the second request is the re-enabling callback and nothing else.
\<close>

theorem second_toggle_forces_close:
  assumes "windowId \<noteq> 0" and "t \<noteq> 0"
    and "windowId \<notin> openSidePanels st0"
    and "\<forall>tev\<in>set between. \<not> isToggleFrom t (snd tev)"
    and "\<bar>now2 - now1\<bar> < 1000"
  shows
    "(let toggle = RuntimeMessage rt TOGGLE_SIDE_PANEL (tabSender windowId t);
          s = advance tq now2 (run loadAsync tq ((now1, toggle) # between) st0)
      in handleEvent loadAsync tq now2 toggle s =
           s\<lparr>lastToggleTimes := (lastToggleTimes s)(t \<mapsto> now2),
             timers := timers s @ [(Suc (timersCreated s), now2 + 10,
                                     ReenablePanel t (windowId \<notin> openSidePanels s) windowId)],
             timersCreated := Suc (timersCreated s),
             calls := calls s @ [SidePanelSetOptions t False None]\<rparr>
         \<and> ((\<forall>tev\<in>set between. snd tev \<noteq> PortInit (Some windowId)) \<longrightarrow>
              windowId \<notin> openSidePanels s)
         \<and> (\<exists>before after.
               calls (advance tq (now2 + 10) (handleEvent loadAsync tq now2 toggle s)) =
                 calls s @ SidePanelSetOptions t False None # before
                   @ SidePanelSetOptions t True (Some ''index.html'') # after)
         \<and> (timers s = [] \<longrightarrow>
               advance tq (now2 + 10) (handleEvent loadAsync tq now2 toggle s) =
                 reenablePanel tq (now2 + 10) t (windowId \<notin> openSidePanels s) windowId
                   (s\<lparr>lastToggleTimes := (lastToggleTimes s)(t \<mapsto> now2),
                      timers := [],
                      timersCreated := Suc (timersCreated s),
                      calls := calls s @ [SidePanelSetOptions t False None]\<rparr>)))"
proof -
  define toggle where "toggle = RuntimeMessage rt TOGGLE_SIDE_PANEL (tabSender windowId t)"
  define s where "s = advance tq now2 (run loadAsync tq ((now1, toggle) # between) st0)"
  define s2 where "s2 = handleEvent loadAsync tq now2 toggle s"
  have h: "handleEvent loadAsync tq now toggle st = toggleSidePanel now windowId t st" for now st
    using assms(1,2)
    by (simp add: toggle_def handleEvent_def onMessage_def tabSender_def senderTabId_def
          senderWindowId_def)
  have r: "run loadAsync tq ((now1, toggle) # between) st0 =
        run loadAsync tq between (toggleSidePanel now1 windowId t (advance tq now1 st0))"
    by (simp add: run_def step_def h)
  then have "lastToggleTimes s t = Some now1"
    using assms(4) by (simp add: s_def ltt_run ltt_toggle_same)
  then have "toggleSidePanel now2 windowId t s =
     s\<lparr>lastToggleTimes := (lastToggleTimes s)(t \<mapsto> now2),
       timers := timers s @ [(Suc (timersCreated s), now2 + 10,
                               ReenablePanel t (windowId \<notin> openSidePanels s) windowId)],
       timersCreated := Suc (timersCreated s),
       calls := calls s @ [SidePanelSetOptions t False None]\<rparr>"
    using assms(5) by (rule toggle_after_recent)
  then have a: "s2 =
     s\<lparr>lastToggleTimes := (lastToggleTimes s)(t \<mapsto> now2),
       timers := timers s @ [(Suc (timersCreated s), now2 + 10,
                               ReenablePanel t (windowId \<notin> openSidePanels s) windowId)],
       timersCreated := Suc (timersCreated s),
       calls := calls s @ [SidePanelSetOptions t False None]\<rparr>"
    by (simp add: s2_def h)
  have b: "(\<forall>tev\<in>set between. snd tev \<noteq> PortInit (Some windowId)) \<longrightarrow>
              windowId \<notin> openSidePanels s"
  proof
    assume b: "\<forall>tev\<in>set between. snd tev \<noteq> PortInit (Some windowId)"
    have "windowId \<notin> openSidePanels (toggleSidePanel now1 windowId t (advance tq now1 st0))"
      using assms(3) by simp
    then have "windowId \<notin> openSidePanels (run loadAsync tq between
                 (toggleSidePanel now1 windowId t (advance tq now1 st0)))"
      using b by (rule osp_run)
    then show "windowId \<notin> openSidePanels s"
      using r by (simp add: s_def)
  qed
  have m: "(Suc (timersCreated s), now2 + 10,
            ReenablePanel t (windowId \<notin> openSidePanels s) windowId) \<in> set (timers s2)"
    by (simp add: a)
  have cs2: "calls s2 = calls s @ [SidePanelSetOptions t False None]"
    by (simp add: a)
  obtain before after where "calls (advance tq (now2 + 10) s2) =
      calls s2 @ before @ SidePanelSetOptions t True (Some ''index.html'') # after"
    using calls_advance_reenable [OF m, of "now2 + 10" tq] by auto
  then have "calls (advance tq (now2 + 10) s2) =
      calls s @ SidePanelSetOptions t False None # before
         @ SidePanelSetOptions t True (Some ''index.html'') # after"
    by (simp add: cs2)
  then have c: "\<exists>before after. calls (advance tq (now2 + 10) s2) =
      calls s @ SidePanelSetOptions t False None # before
         @ SidePanelSetOptions t True (Some ''index.html'') # after"
    by blast
  have d: "timers s = [] \<longrightarrow>
               advance tq (now2 + 10) s2 =
                 reenablePanel tq (now2 + 10) t (windowId \<notin> openSidePanels s) windowId
                   (s\<lparr>lastToggleTimes := (lastToggleTimes s)(t \<mapsto> now2),
                      timers := [],
                      timersCreated := Suc (timersCreated s),
                      calls := calls s @ [SidePanelSetOptions t False None]\<rparr>)"
  proof
    assume e: "timers s = []"
    show "advance tq (now2 + 10) s2 =
                 reenablePanel tq (now2 + 10) t (windowId \<notin> openSidePanels s) windowId
                   (s\<lparr>lastToggleTimes := (lastToggleTimes s)(t \<mapsto> now2),
                      timers := [],
                      timersCreated := Suc (timersCreated s),
                      calls := calls s @ [SidePanelSetOptions t False None]\<rparr>)"
      unfolding a using e by (cases s) (simp add: advance_def runCallback_def)
  qed
  have a': "handleEvent loadAsync tq now2 toggle s =
     s\<lparr>lastToggleTimes := (lastToggleTimes s)(t \<mapsto> now2),
       timers := timers s @ [(Suc (timersCreated s), now2 + 10,
                               ReenablePanel t (windowId \<notin> openSidePanels s) windowId)],
       timersCreated := Suc (timersCreated s),
       calls := calls s @ [SidePanelSetOptions t False None]\<rparr>"
    using a unfolding s2_def .
  show ?thesis
    unfolding Let_def toggle_def [symmetric] s_def [symmetric]
    using a' b c d unfolding s2_def by (intro conjI)
qed

theorem second_toggle_forces_close_witness:
  "calls (handleEvent notAnArchive activeTab42 1700000000400 toggle42
            (advance activeTab42 1700000000400
               (run notAnArchive activeTab42
                  [(1700000000000, toggle42), (1700000000100, BrowserOnly [])] initialBg)))
     = [SidePanelSetOptions 42 True (Some ''index.html''), SidePanelOpen 7,
        SidePanelSetOptions 42 False None]
   \<and> calls (advance activeTab42 1700000000410
        (handleEvent notAnArchive activeTab42 1700000000400 toggle42
            (advance activeTab42 1700000000400
               (run notAnArchive activeTab42
                  [(1700000000000, toggle42), (1700000000100, BrowserOnly [])] initialBg))))
     = [SidePanelSetOptions 42 True (Some ''index.html''), SidePanelOpen 7,
        SidePanelSetOptions 42 False None,
        SidePanelSetOptions 42 True (Some ''index.html''),
        TabsSendMessage 42 (SIDE_PANEL_STATE False)]"
proof -
  define s where "s = advance activeTab42 1700000000400
               (run notAnArchive activeTab42
                  [(1700000000000, toggle42), (1700000000100, BrowserOnly [])] initialBg)"
  have c: "calls s = [SidePanelSetOptions 42 True (Some ''index.html''), SidePanelOpen 7]"
    unfolding s_def by code_simp
  have ti: "timers s = []"
    unfolding s_def by code_simp
  have o: "7 \<notin> openSidePanels s"
    unfolding s_def by code_simp
  have b: "\<forall>tev\<in>set [(1700000000100 :: int, BrowserOnly [])]. \<not> isToggleFrom 42 (snd tev)"
    by (simp add: isToggleFrom_def)
  note t = second_toggle_forces_close
      [where windowId = 7 and t = 42 and ?st0.0 = initialBg and ?now1.0 = 1700000000000
         and ?now2.0 = 1700000000400 and between = "[(1700000000100, BrowserOnly [])]"
         and rt = runA and tq = activeTab42 and loadAsync = notAnArchive, OF _ _ _ b,
       unfolded Let_def toggle42_def [symmetric] s_def [symmetric]]
  have p: "(7::int) \<noteq> 0" "(42::int) \<noteq> 0" "7 \<notin> openSidePanels initialBg"
    "\<bar>1700000000400 - 1700000000000 :: int\<bar> < 1000"
    by (simp_all add: initialBg_def)
  note t' = t [OF p]
  have 1: "calls (handleEvent notAnArchive activeTab42 1700000000400 toggle42 s) =
           calls s @ [SidePanelSetOptions 42 False None]"
    using t' [THEN conjunct1] by simp
  have 2: "advance activeTab42 (1700000000400 + 10)
             (handleEvent notAnArchive activeTab42 1700000000400 toggle42 s) =
           reenablePanel activeTab42 (1700000000400 + 10) 42 (7 \<notin> openSidePanels s) 7
             (s\<lparr>lastToggleTimes := (lastToggleTimes s)(42 \<mapsto> 1700000000400),
                timers := [],
                timersCreated := Suc (timersCreated s),
                calls := calls s @ [SidePanelSetOptions 42 False None]\<rparr>)"
    using t' [THEN conjunct2, THEN conjunct2, THEN conjunct2] ti by blast
  have 3: "calls (advance activeTab42 1700000000410
             (handleEvent notAnArchive activeTab42 1700000000400 toggle42 s)) =
        [SidePanelSetOptions 42 True (Some ''index.html''), SidePanelOpen 7,
         SidePanelSetOptions 42 False None,
         SidePanelSetOptions 42 True (Some ''index.html''),
         TabsSendMessage 42 (SIDE_PANEL_STATE False)]"
    using 2 o
    by (simp add: c reenablePanel_def broadcastSidePanelState_def chromeCall_def activeTab42_def
          Let_def)
  show ?thesis
    unfolding s_def [symmetric] using 1 3 by (simp add: c)
qed

section \<open>Notification batching\<close>

lemma notifications_chromeCall:
  "notifications (chromeCall c st) = notifications st @ (if isShow c then [c] else [])"
  by (simp add: notifications_def chromeCall_def)

lemma notifications_broadcast [simp]:
  "notifications (broadcastSidePanelState tq now w b st) = notifications st"
  by (simp add: broadcastSidePanelState_def notifications_chromeCall isShow_def
           split: list.splits option.splits)

lemma reenablePanel_fields [simp]:
  "notificationBatch (reenablePanel tq now t b w st) = notificationBatch st"
  "notificationTimeout (reenablePanel tq now t b w st) = notificationTimeout st"
  "timers (reenablePanel tq now t b w st) = timers st"
  "timersCreated (reenablePanel tq now t b w st) = timersCreated st"
  "notifications (reenablePanel tq now t b w st) = notifications st"
  by (simp_all add: reenablePanel_def Let_def broadcastSidePanelState_def chromeCall_def
        notifications_def isShow_def split: list.splits option.splits)

lemma flush_none [simp]:
  "notificationBatch st = None \<Longrightarrow> flushNotification tq now st = st"
  by (simp add: flushNotification_def)

lemma flush_some:
  assumes "notificationBatch st = Some b"
  shows "notificationBatch (flushNotification tq now st) = None"
    and "timers (flushNotification tq now st) = timers st"
    and "timersCreated (flushNotification tq now st) = timersCreated st"
    and "notifications (flushNotification tq now st) = notifications st @ deliver tq now b"
  using assms
  by (simp_all add: flushNotification_def Let_def showNotification_def chromeCall_def
        notifications_def deliver_def isShow_def split: option.splits)

lemma runCallback_other:
  assumes "\<not> isFlush timer"
  shows "notificationBatch (runCallback tq st timer) = notificationBatch st"
    and "notificationTimeout (runCallback tq st timer) = notificationTimeout st"
    and "timers (runCallback tq st timer) = timers st"
    and "timersCreated (runCallback tq st timer) = timersCreated st"
    and "notifications (runCallback tq st timer) = notifications st"
  using assms
  by (cases timer; cases "snd (snd timer)"; simp add: runCallback_def isFlush_def)+

lemma runCallback_flush:
  "runCallback tq st (h, d, FlushNotification) = flushNotification tq d st"
  by (simp add: runCallback_def)

lemma fold_idle:
  "notificationBatch st = None \<Longrightarrow>
     notificationBatch (foldl (runCallback tq) st ts) = None
     \<and> timers (foldl (runCallback tq) st ts) = timers st
     \<and> timersCreated (foldl (runCallback tq) st ts) = timersCreated st
     \<and> notifications (foldl (runCallback tq) st ts) = notifications st"
proof (induction ts arbitrary: st)
  case Nil
  then show ?case by simp
next
  case (Cons timer ts)
  obtain h d cb where t: "timer = (h, d, cb)" by (cases timer)
  show ?case
  proof (cases "isFlush timer")
    case True
    then have "runCallback tq st timer = st"
      using Cons.prems by (simp add: t isFlush_def runCallback_flush)
    then show ?thesis using Cons by simp
  next
    case False
    from runCallback_other [OF False, of tq st] Cons.prems Cons.IH [of "runCallback tq st timer"]
    show ?thesis by simp
  qed
qed

lemma fold_other:
  "\<forall>timer\<in>set ts. \<not> isFlush timer \<Longrightarrow>
     notificationBatch (foldl (runCallback tq) st ts) = notificationBatch st
     \<and> notificationTimeout (foldl (runCallback tq) st ts) = notificationTimeout st
     \<and> timers (foldl (runCallback tq) st ts) = timers st
     \<and> timersCreated (foldl (runCallback tq) st ts) = timersCreated st
     \<and> notifications (foldl (runCallback tq) st ts) = notifications st"
proof (induction ts arbitrary: st)
  case Nil
  then show ?case by simp
next
  case (Cons timer ts)
  then have n: "\<not> isFlush timer" and r: "\<forall>timer\<in>set ts. \<not> isFlush timer" by simp_all
  from runCallback_other [OF n, of tq st] Cons.IH [OF r, of "runCallback tq st timer"]
  show ?case by simp
qed

lemma fold_flush:
  "notificationBatch st = Some b \<Longrightarrow>
   \<forall>timer\<in>set ts. isFlush timer \<longrightarrow> fst (snd timer) = d \<Longrightarrow>
   \<exists>timer\<in>set ts. isFlush timer \<Longrightarrow>
     notificationBatch (foldl (runCallback tq) st ts) = None
     \<and> timers (foldl (runCallback tq) st ts) = timers st
     \<and> timersCreated (foldl (runCallback tq) st ts) = timersCreated st
     \<and> notifications (foldl (runCallback tq) st ts) = notifications st @ deliver tq d b"
proof (induction ts arbitrary: st)
  case Nil
  then show ?case by simp
next
  case (Cons timer ts)
  obtain h d' cb where t: "timer = (h, d', cb)" by (cases timer)
  show ?case
  proof (cases "isFlush timer")
    case True
    then have c: "cb = FlushNotification" and d: "d' = d"
      using Cons.prems(2) by (simp_all add: t isFlush_def)
    have f: "runCallback tq st timer = flushNotification tq d st"
      by (simp add: t c d runCallback_flush)
    from flush_some [OF Cons.prems(1), of tq d]
      fold_idle [of "flushNotification tq d st" tq ts]
    show ?thesis by (simp add: f)
  next
    case False
    with Cons.prems have 2: "\<forall>timer\<in>set ts. isFlush timer \<longrightarrow> fst (snd timer) = d"
      and 3: "\<exists>timer\<in>set ts. isFlush timer" by auto
    have 1: "notificationBatch (runCallback tq st timer) = Some b"
      using runCallback_other(1) [OF False] Cons.prems(1) by simp
    from Cons.IH [OF 1 2 3] runCallback_other [OF False, of tq st]
    show ?thesis by simp
  qed
qed

lemma advance_idle:
  assumes "idle st"
  shows "idle (advance tq t st)" and "notifications (advance tq t st) = notifications st"
proof -
  let ?s = "st\<lparr>timers := filter (\<lambda>(h, due, cb). \<not> due \<le> t) (timers st)\<rparr>"
  have "notificationBatch ?s = None" using assms by (simp add: idle_def)
  from fold_idle [OF this, of tq] assms
  show "idle (advance tq t st)" and "notifications (advance tq t st) = notifications st"
    by (simp_all add: advance_def idle_def notifications_def)
qed

lemma advance_pending_early:
  assumes "pending st b d" and "t < d"
  shows "pending (advance tq t st) b d" and "notifications (advance tq t st) = notifications st"
proof -
  let ?s = "st\<lparr>timers := filter (\<lambda>(h, due, cb). \<not> due \<le> t) (timers st)\<rparr>"
  let ?due = "sort_key (\<lambda>(h, due, cb). due) (filter (\<lambda>(h, due, cb). due \<le> t) (timers st))"
  from assms(1) obtain h where b: "notificationBatch st = Some b"
    and h: "notificationTimeout st = Some h" "h \<noteq> 0" "(h, d, FlushNotification) \<in> set (timers st)"
    and u: "\<forall>timer\<in>set (timers st). isFlush timer \<longrightarrow> timer = (h, d, FlushNotification)"
    by (auto simp: pending_def)
  have "\<forall>timer\<in>set ?due. \<not> isFlush timer"
    using u assms(2) by auto
  from fold_other [OF this, of tq ?s]
  have f: "notificationBatch (advance tq t st) = Some b"
    "notificationTimeout (advance tq t st) = Some h"
    "timers (advance tq t st) = filter (\<lambda>(h, due, cb). \<not> due \<le> t) (timers st)"
    "notifications (advance tq t st) = notifications st"
    using b h by (simp_all add: advance_def notifications_def)
  show "notifications (advance tq t st) = notifications st" by (rule f(4))
  show "pending (advance tq t st) b d"
    unfolding pending_def f using h u assms(2) by auto
qed

lemma advance_pending_due:
  assumes "pending st b d" and "d \<le> t"
  shows "idle (advance tq t st)"
    and "notifications (advance tq t st) = notifications st @ deliver tq d b"
proof -
  let ?s = "st\<lparr>timers := filter (\<lambda>(h, due, cb). \<not> due \<le> t) (timers st)\<rparr>"
  let ?due = "sort_key (\<lambda>(h, due, cb). due) (filter (\<lambda>(h, due, cb). due \<le> t) (timers st))"
  from assms(1) obtain h where b: "notificationBatch st = Some b"
    and h: "(h, d, FlushNotification) \<in> set (timers st)"
    and u: "\<forall>timer\<in>set (timers st). isFlush timer \<longrightarrow> timer = (h, d, FlushNotification)"
    by (auto simp: pending_def)
  have 1: "notificationBatch ?s = Some b" using b by simp
  have 2: "\<forall>timer\<in>set ?due. isFlush timer \<longrightarrow> fst (snd timer) = d"
    using u by auto
  have "(h, d, FlushNotification) \<in> set ?due"
    using h assms(2) by simp
  then have 3: "\<exists>timer\<in>set ?due. isFlush timer"
    by (auto simp: isFlush_def)
  from fold_flush [OF 1 2 3, of tq]
  have f: "notificationBatch (advance tq t st) = None"
    "timers (advance tq t st) = filter (\<lambda>(h, due, cb). \<not> due \<le> t) (timers st)"
    "notifications (advance tq t st) = notifications st @ deliver tq d b"
    by (simp_all add: advance_def notifications_def)
  show "notifications (advance tq t st) = notifications st @ deliver tq d b" by (rule f(3))
  show "idle (advance tq t st)"
    unfolding idle_def f using u assms(2) by auto
qed

lemma schedule_idle:
  assumes "idle st"
  shows "pending (scheduleNotification now c t st) \<lparr>count = c, tabId = t\<rparr> (now + 1000)"
    and "notifications (scheduleNotification now c t st) = notifications st"
  using assms
  by (auto simp: scheduleNotification_def setTimeout_def clearTimeout_def Let_def idle_def
        pending_def notifications_def isFlush_def split: option.splits)

lemma schedule_pending:
  assumes "pending st b d"
  shows "pending (scheduleNotification now c t st)
           (b\<lparr>count := count b + c, tabId := (if truthyId t then t else tabId b)\<rparr>) (now + 1000)"
    and "notifications (scheduleNotification now c t st) = notifications st"
  using assms
  by (auto simp: scheduleNotification_def setTimeout_def clearTimeout_def Let_def
        pending_def notifications_def isFlush_def split: option.splits)




end
